theory Spec2Isabelle
  imports
    Complex_Main
    "HOL-Library.Char_ord"
    "HOL-Library.List_Lexorder"
    "HOL-Library.Multiset"
    "HOL-Library.Sublist"
begin

section \<open>Skill documents: validation and cataloguing (scripts/helper.py)\<close>

text \<open>
  The development embeds the classes \<^verbatim>\<open>SkillValidator\<close> and \<^verbatim>\<open>SkillCatalog\<close>
  of \<^verbatim>\<open>scripts/helper.py\<close>. Python's \<^verbatim>\<open>str\<close> is modelled as \<open>string\<close>, one
  \<open>char\<close> per code point, which covers texts whose code points are below 256.
  Exceptions are values of \<open>py_error\<close>; a function that can raise returns
  \<open>py_error + 'a\<close> with \<open>Inl\<close> for the exception.

  Three things the module only calls are parameters of the model:
  \<^item> \<^verbatim>\<open>yaml.safe_load\<close>, a function from the header text to a Python value or an
    exception;
  \<^item> \<^verbatim>\<open>re.compile\<close> for the two patterns a configuration carries;
  \<^item> the built-in conversions \<^verbatim>\<open>str.title\<close>, \<^verbatim>\<open>str()\<close> and the clock, in the
    markdown rendering.
  The two regular expressions written out in the module itself (the header block and the
  section heading) are translated to matchers below.
\<close>

subsection \<open>Python values and exceptions\<close>

datatype py_error =
    YAMLError
  | TypeError
  | KeyError
  | AttributeError
  | ValueError
  | OSError
  | UnicodeDecodeError
  | RegexError

text \<open>
  The values \<^verbatim>\<open>yaml.safe_load\<close> builds from the core YAML schema. A float is given by
  its exact rational value (the non-finite floats are left out), a dictionary by its
  items in insertion order. Timestamps, binary data and sets, which need their own YAML
  tags or a date-shaped scalar, are not part of the value model.
\<close>

datatype pyval =
    PNone
  | PBool bool
  | PInt int
  | PFloat rat
  | PStr string
  | PList "pyval list"
  | PDict "(pyval \<times> pyval) list"

text \<open>Truth value testing, as \<^verbatim>\<open>if metadata:\<close> and \<^verbatim>\<open>if not frontmatter:\<close> use it.\<close>

fun truthy :: "pyval \<Rightarrow> bool" where
  "truthy PNone = False"
| "truthy (PBool b) = b"
| "truthy (PInt i) = (i \<noteq> 0)"
| "truthy (PFloat r) = (r \<noteq> 0)"
| "truthy (PStr s) = (s \<noteq> [])"
| "truthy (PList xs) = (xs \<noteq> [])"
| "truthy (PDict kvs) = (kvs \<noteq> [])"

text \<open>
  \<^verbatim>\<open>key in container\<close> for a string key: key membership in a dictionary, element
  membership in a list, substring test in a string, \<^verbatim>\<open>TypeError\<close> for a value that is
  not iterable. A string equals no value of another type, so plain equality on
  \<open>PStr key\<close> is Python's \<^verbatim>\<open>==\<close> here.
\<close>

fun py_contains :: "pyval \<Rightarrow> string \<Rightarrow> py_error + bool" where
  "py_contains (PDict kvs) key = Inr (PStr key \<in> set (map fst kvs))"
| "py_contains (PList xs) key = Inr (PStr key \<in> set xs)"
| "py_contains (PStr s) key = Inr (sublist key s)"
| "py_contains _ key = Inl TypeError"

text \<open>
  \<^verbatim>\<open>container[key]\<close> for a string key: the first item of a dictionary under that key,
  \<^verbatim>\<open>KeyError\<close> when there is none; lists and strings take integer indices only, and the
  other values are not subscriptable.
\<close>

fun py_getitem :: "pyval \<Rightarrow> string \<Rightarrow> py_error + pyval" where
  "py_getitem (PDict kvs) key =
     (case map_of kvs (PStr key) of None \<Rightarrow> Inl KeyError | Some v \<Rightarrow> Inr v)"
| "py_getitem _ key = Inl TypeError"

subsection \<open>Characters and the two regular expressions of the module\<close>

abbreviation NL :: char where
  "NL \<equiv> CHR 0x0A"

text \<open>
  The class \<^verbatim>\<open>\s\<close> of a \<^verbatim>\<open>str\<close> pattern on the code points below 256: the ASCII
  white space 9 to 13 and 32, the separators 28 to 31, NEL (133) and the no-break space
  (160).
\<close>

definition is_space :: "char \<Rightarrow> bool" where
  "is_space c =
     (let n = (of_char c :: nat)
      in (9 \<le> n \<and> n \<le> 13) \<or> (28 \<le> n \<and> n \<le> 32) \<or> n = 133 \<or> n = 160)"

text \<open>
  \<^verbatim>\<open>\s*\n\<close> at the start of a text: \<^verbatim>\<open>\s*\<close> takes white space and the \<^verbatim>\<open>\n\<close>
  after it is one of the line feeds of that white space. \<open>ws_newline_rests s\<close> lists what
  follows each such line feed, the shortest \<^verbatim>\<open>\s*\<close> first. The greedy \<^verbatim>\<open>\s*\<close> tries
  them from the last to the first.
\<close>

fun ws_newline_rests :: "string \<Rightarrow> string list" where
  "ws_newline_rests [] = []"
| "ws_newline_rests (c # cs) =
     (if c = NL then cs # ws_newline_rests cs
      else if is_space c then ws_newline_rests cs
      else [])"

text \<open>\<^verbatim>\<open>\n---\s*\n\<close> matches at the start of \<open>r\<close>.\<close>

definition closing_at :: "string \<Rightarrow> bool" where
  "closing_at r = (prefix (NL # ''---'') r \<and> ws_newline_rests (drop 4 r) \<noteq> [])"

text \<open>\<^verbatim>\<open>\n---\s*\n\<close> matches somewhere in \<open>r\<close>.\<close>

fun closing_in :: "string \<Rightarrow> bool" where
  "closing_in [] = False"
| "closing_in (c # cs) = (closing_at (c # cs) \<or> closing_in cs)"

text \<open>
  \<^verbatim>\<open>(.*?)\n---\s*\n\<close> with \<^verbatim>\<open>re.DOTALL\<close>: the lazy group grows one character at a
  time, any character, until the closing delimiter matches. \<open>acc\<close> holds the group so
  far, reversed.
\<close>

fun lazy_body :: "string \<Rightarrow> string \<Rightarrow> string option" where
  "lazy_body acc [] = (if closing_at [] then Some (rev acc) else None)"
| "lazy_body acc (c # cs) =
     (if closing_at (c # cs) then Some (rev acc) else lazy_body (c # acc) cs)"

text \<open>The first alternative that succeeds, in the order backtracking tries them.\<close>

fun first_match :: "('a \<Rightarrow> 'b option) \<Rightarrow> 'a list \<Rightarrow> 'b option" where
  "first_match f [] = None"
| "first_match f (x # xs) = (case f x of Some y \<Rightarrow> Some y | None \<Rightarrow> first_match f xs)"

text \<open>
  \<^verbatim>\<open>re.match(r'^---\s*\n(.*?)\n---\s*\n', content, re.DOTALL)\<close>: \<open>None\<close> when there is
  no match, group 1 otherwise.
\<close>

definition frontmatter_match :: "string \<Rightarrow> string option" where
  "frontmatter_match content =
     (if prefix ''---'' content
      then first_match (lazy_body []) (rev (ws_newline_rests (drop 3 content)))
      else None)"

text \<open>
  \<^verbatim>\<open>re.search(rf'^##\s+{section}', content, re.MULTILINE)\<close> for a section name without
  regular expression operators that starts with a character outside \<^verbatim>\<open>\s\<close>, as the three
  names of the module do: at some line start stand two hash marks, white space, and the name.
\<close>

fun after_newlines :: "string \<Rightarrow> string list" where
  "after_newlines [] = []"
| "after_newlines (c # cs) =
     (if c = NL then cs # after_newlines cs else after_newlines cs)"

definition line_starts :: "string \<Rightarrow> string list" where
  "line_starts content = content # after_newlines content"

definition heading_at :: "string \<Rightarrow> string \<Rightarrow> bool" where
  "heading_at section r =
     (prefix ''##'' r \<and> takeWhile is_space (drop 2 r) \<noteq> [] \<and>
      prefix section (dropWhile is_space (drop 2 r)))"

definition search_section :: "string \<Rightarrow> string \<Rightarrow> bool" where
  "search_section section content = list_ex (heading_at section) (line_starts content)"

subsection \<open>SkillValidator\<close>

definition REQUIRED_FIELDS :: "string list" where
  "REQUIRED_FIELDS = [''name'', ''version'', ''description'']"

definition NAME_PATTERN :: string where
  "NAME_PATTERN = ''^[a-z0-9]+(-[a-z0-9]+)*$''"

definition VERSION_PATTERN :: string where
  "VERSION_PATTERN = [CHR ''^'', CHR 0x5C] @ ''d+'' @ [CHR 0x5C] @ ''.'' @ [CHR 0x5C] @ ''d+''
     @ [CHR 0x5C] @ ''.'' @ [CHR 0x5C] @ ''d+$''"

text \<open>
  The dictionary under \<^verbatim>\<open>config['validation']\<close>, with the four keys \<^verbatim>\<open>_load_config\<close>
  gives it and the types of their defaults.
\<close>

record validation_config =
  require_frontmatter :: bool
  required_fields :: "string list"
  naming_pattern :: string
  version_pattern :: string

definition default_config :: validation_config where
  "default_config =
     \<lparr> require_frontmatter = True,
       required_fields = REQUIRED_FIELDS,
       naming_pattern = NAME_PATTERN,
       version_pattern = VERSION_PATTERN \<rparr>"

text \<open>
  \<^verbatim>\<open>yaml.safe_load\<close> on the header text: a value, \<^verbatim>\<open>yaml.YAMLError\<close>, or another
  exception.
\<close>

type_synonym yaml_loader = "string \<Rightarrow> py_error + pyval"

text \<open>\<^verbatim>\<open>extract_frontmatter\<close>: only \<^verbatim>\<open>yaml.YAMLError\<close> is caught.\<close>

definition extract_frontmatter :: "yaml_loader \<Rightarrow> string \<Rightarrow> py_error + pyval" where
  "extract_frontmatter safe_load content =
     (case frontmatter_match content of
        None \<Rightarrow> Inr PNone
      | Some body \<Rightarrow>
          (case safe_load body of
             Inl e \<Rightarrow> (if e = YAMLError then Inr PNone else Inl e)
           | Inr v \<Rightarrow> Inr v))"

text \<open>\<^verbatim>\<open>_validate_content\<close>: the loop over the three section names, appending to \<open>errors\<close>.\<close>

definition required_sections :: "string list" where
  "required_sections = [''Overview'', ''Instructions'', ''Examples'']"

fun validate_content_loop :: "string \<Rightarrow> string list \<Rightarrow> string list \<Rightarrow> string list" where
  "validate_content_loop content [] errors = errors"
| "validate_content_loop content (section # sections) errors =
     validate_content_loop content sections
       (if \<not> search_section section content
        then errors @ [''Missing required section: '' @ section]
        else errors)"

definition validate_content :: "string \<Rightarrow> string list" where
  "validate_content content = validate_content_loop content required_sections []"

text \<open>
  \<^verbatim>\<open>re.compile\<close>: a pattern gives a test on strings (does \<^verbatim>\<open>re.match\<close> find a match)
  or is refused. \<^verbatim>\<open>re.match(pattern, value)\<close> compiles the pattern and then raises
  \<^verbatim>\<open>TypeError\<close> on a value that is not a string.
\<close>

type_synonym re_compiler = "string \<Rightarrow> py_error + (string \<Rightarrow> bool)"

definition re_match :: "re_compiler \<Rightarrow> string \<Rightarrow> pyval \<Rightarrow> py_error + bool" where
  "re_match re_compile pattern v =
     (case re_compile pattern of
        Inl e \<Rightarrow> Inl e
      | Inr matches \<Rightarrow> (case v of PStr s \<Rightarrow> Inr (matches s) | _ \<Rightarrow> Inl TypeError))"

text \<open>A file system: what \<^verbatim>\<open>os.path.exists\<close> and \<^verbatim>\<open>open(...).read()\<close> see of a path.\<close>

datatype node =
    TextFile string
  | Unreadable py_error

type_synonym filesystem = "string \<Rightarrow> node option"

fun read_text :: "node \<Rightarrow> py_error + string" where
  "read_text (TextFile content) = Inr content"
| "read_text (Unreadable e) = Inl e"

text \<open>The loop over the required fields.\<close>

fun check_required_fields ::
  "pyval \<Rightarrow> string list \<Rightarrow> string list \<Rightarrow> py_error + string list" where
  "check_required_fields frontmatter [] errors = Inr errors"
| "check_required_fields frontmatter (field # rest) errors =
     (case py_contains frontmatter field of
        Inl e \<Rightarrow> Inl e
      | Inr present \<Rightarrow>
          check_required_fields frontmatter rest
            (if \<not> present then errors @ [''Missing required field: '' @ field] else errors))"

text \<open>
  The two format checks have one shape: \<^verbatim>\<open>if key in frontmatter\<close>, then
  \<^verbatim>\<open>if not re.match(pattern, frontmatter[key])\<close>, append the message.
\<close>

definition check_format ::
  "re_compiler \<Rightarrow> pyval \<Rightarrow> string \<Rightarrow> string \<Rightarrow> string \<Rightarrow> string list
     \<Rightarrow> py_error + string list" where
  "check_format re_compile frontmatter key pattern message errors =
     (case py_contains frontmatter key of
        Inl e \<Rightarrow> Inl e
      | Inr present \<Rightarrow>
          if present then
            (case py_getitem frontmatter key of
               Inl e \<Rightarrow> Inl e
             | Inr v \<Rightarrow>
                 (case re_match re_compile pattern v of
                    Inl e \<Rightarrow> Inl e
                  | Inr m \<Rightarrow> Inr (if \<not> m then errors @ [message @ pattern] else errors)))
          else Inr errors)"

text \<open>The dictionary \<^verbatim>\<open>validate_skill\<close> returns; the early returns carry no metadata.\<close>

record validation_result =
  valid :: bool
  errors :: "string list"
  metadata :: "pyval option"

definition validate_skill ::
  "yaml_loader \<Rightarrow> re_compiler \<Rightarrow> validation_config \<Rightarrow> filesystem \<Rightarrow> string
     \<Rightarrow> py_error + validation_result" where
  "validate_skill safe_load re_compile config fs skill_path =
     (case fs skill_path of
        None \<Rightarrow>
          Inr \<lparr> valid = False, errors = [''File does not exist''], metadata = None \<rparr>
      | Some file \<Rightarrow>
     (case read_text file of
        Inl e \<Rightarrow> Inl e
      | Inr content \<Rightarrow>
     (case extract_frontmatter safe_load content of
        Inl e \<Rightarrow> Inl e
      | Inr frontmatter \<Rightarrow>
          if \<not> truthy frontmatter then
            Inr \<lparr> valid = False,
                  errors = (if require_frontmatter config
                            then [''Missing YAML frontmatter''] else []),
                  metadata = None \<rparr>
          else
     (case check_required_fields frontmatter (required_fields config) [] of
        Inl e \<Rightarrow> Inl e
      | Inr errors1 \<Rightarrow>
     (case check_format re_compile frontmatter ''name'' (naming_pattern config)
             ''Invalid name format. Must match: '' errors1 of
        Inl e \<Rightarrow> Inl e
      | Inr errors2 \<Rightarrow>
     (case check_format re_compile frontmatter ''version'' (version_pattern config)
             ''Invalid version format. Must match: '' errors2 of
        Inl e \<Rightarrow> Inl e
      | Inr errors3 \<Rightarrow>
          (let errors4 = errors3 @ validate_content content
           in Inr \<lparr> valid = (length errors4 = 0),
                    errors = errors4,
                    metadata = Some frontmatter \<rparr>)))))))"

subsection \<open>Comparison, sorting and dictionaries of Python values\<close>

text \<open>The number a \<^verbatim>\<open>bool\<close>, \<^verbatim>\<open>int\<close> or \<^verbatim>\<open>float\<close> stands for.\<close>

fun num_value :: "pyval \<Rightarrow> rat option" where
  "num_value (PBool b) = Some (if b then 1 else 0)"
| "num_value (PInt i) = Some (of_int i)"
| "num_value (PFloat r) = Some r"
| "num_value _ = None"

text \<open>
  \<^verbatim>\<open>a == b\<close>: numbers by value across the three numeric types, strings and \<^verbatim>\<open>None\<close>
  by identity of value, lists element by element, dictionaries as sets of items.
\<close>

fun py_eq :: "pyval \<Rightarrow> pyval \<Rightarrow> bool" where
  "py_eq PNone PNone = True"
| "py_eq (PStr a) (PStr b) = (a = b)"
| "py_eq (PList xs) (PList ys) = list_all2 py_eq xs ys"
| "py_eq (PDict xs) (PDict ys) =
     (length xs = length ys \<and>
      list_all (\<lambda>item. list_ex (\<lambda>item'. py_eq (fst item) (fst item') \<and>
                                        py_eq (snd item) (snd item')) ys) xs)"
| "py_eq a b =
     (case (num_value a, num_value b) of (Some x, Some y) \<Rightarrow> x = y | _ \<Rightarrow> False)"

text \<open>
  \<^verbatim>\<open>a < b\<close>: numbers by value, strings by code points, lists by their first pair of
  unequal elements; every other pair of values raises \<^verbatim>\<open>TypeError\<close>.
\<close>

fun py_lt :: "pyval \<Rightarrow> pyval \<Rightarrow> py_error + bool"
  and py_lt_list :: "pyval list \<Rightarrow> pyval list \<Rightarrow> py_error + bool" where
  "py_lt (PStr a) (PStr b) = Inr (a < b)"
| "py_lt (PList xs) (PList ys) = py_lt_list xs ys"
| "py_lt a b =
     (case (num_value a, num_value b) of
        (Some x, Some y) \<Rightarrow> Inr (x < y)
      | _ \<Rightarrow> Inl TypeError)"
| "py_lt_list [] ys = Inr (ys \<noteq> [])"
| "py_lt_list (x # xs) [] = Inr False"
| "py_lt_list (x # xs) (y # ys) = (if py_eq x y then py_lt_list xs ys else py_lt x y)"

text \<open>
  \<^verbatim>\<open>sorted(xs, key=f)\<close> computes every key, then sorts stably, comparing keys with
  \<^verbatim>\<open><\<close> only. On keys that \<^verbatim>\<open><\<close> orders totally every stable sort returns the same
  list; it is computed here by stable insertion, which raises what the comparison
  raises.
\<close>

fun py_insort :: "pyval \<times> 'a \<Rightarrow> (pyval \<times> 'a) list \<Rightarrow> py_error + (pyval \<times> 'a) list" where
  "py_insort x [] = Inr [x]"
| "py_insort x (y # ys) =
     (case py_lt (fst y) (fst x) of
        Inl e \<Rightarrow> Inl e
      | Inr lt \<Rightarrow>
          if lt then (case py_insort x ys of Inl e \<Rightarrow> Inl e | Inr zs \<Rightarrow> Inr (y # zs))
          else Inr (x # y # ys))"

fun py_sort_pairs :: "(pyval \<times> 'a) list \<Rightarrow> py_error + (pyval \<times> 'a) list" where
  "py_sort_pairs [] = Inr []"
| "py_sort_pairs (x # xs) =
     (case py_sort_pairs xs of Inl e \<Rightarrow> Inl e | Inr ys \<Rightarrow> py_insort x ys)"

fun with_keys :: "('a \<Rightarrow> py_error + pyval) \<Rightarrow> 'a list \<Rightarrow> py_error + (pyval \<times> 'a) list" where
  "with_keys key [] = Inr []"
| "with_keys key (x # xs) =
     (case key x of
        Inl e \<Rightarrow> Inl e
      | Inr k \<Rightarrow> (case with_keys key xs of Inl e \<Rightarrow> Inl e | Inr ps \<Rightarrow> Inr ((k, x) # ps)))"

definition py_sorted :: "('a \<Rightarrow> py_error + pyval) \<Rightarrow> 'a list \<Rightarrow> py_error + 'a list" where
  "py_sorted key xs =
     (case with_keys key xs of
        Inl e \<Rightarrow> Inl e
      | Inr ps \<Rightarrow> (case py_sort_pairs ps of Inl e \<Rightarrow> Inl e | Inr qs \<Rightarrow> Inr (map snd qs)))"

text \<open>\<^verbatim>\<open>d.get(key, default)\<close>; only a dictionary has the method.\<close>

fun py_get :: "pyval \<Rightarrow> string \<Rightarrow> pyval \<Rightarrow> py_error + pyval" where
  "py_get (PDict kvs) key d = Inr (case map_of kvs (PStr key) of None \<Rightarrow> d | Some v \<Rightarrow> v)"
| "py_get _ key d = Inl AttributeError"

text \<open>
  \<^verbatim>\<open>d[key] = v\<close> for a string key: the value of an existing key is replaced where it
  stands, a new key goes last. Values that are not dictionaries refuse the assignment.
\<close>

fun dict_update :: "pyval \<Rightarrow> pyval \<Rightarrow> (pyval \<times> pyval) list \<Rightarrow> (pyval \<times> pyval) list" where
  "dict_update k v [] = [(k, v)]"
| "dict_update k v ((k', v') # kvs) =
     (if k' = k then (k', v) # kvs else (k', v') # dict_update k v kvs)"

fun py_setitem :: "pyval \<Rightarrow> string \<Rightarrow> pyval \<Rightarrow> py_error + pyval" where
  "py_setitem (PDict kvs) key v = Inr (PDict (dict_update (PStr key) v kvs))"
| "py_setitem _ key v = Inl TypeError"

subsection \<open>SkillCatalog\<close>

text \<open>
  The directory is given by what \<^verbatim>\<open>rglob('SKILL.md')\<close> yields, in its order: each path
  relative to \<^verbatim>\<open>skills_dir\<close>, with the node \<^verbatim>\<open>open\<close> finds there. The loop of
  \<^verbatim>\<open>_discover_skills\<close> appends to \<open>skills\<close>.
\<close>

fun collect_skills ::
  "yaml_loader \<Rightarrow> (string \<times> node) list \<Rightarrow> pyval list \<Rightarrow> py_error + pyval list" where
  "collect_skills safe_load [] skills = Inr skills"
| "collect_skills safe_load ((rel, skill_file) # rest) skills =
     (case read_text skill_file of
        Inl e \<Rightarrow> Inl e
      | Inr content \<Rightarrow>
     (case extract_frontmatter safe_load content of
        Inl e \<Rightarrow> Inl e
      | Inr meta \<Rightarrow>
          if truthy meta then
            (case py_setitem meta ''path'' (PStr rel) of
               Inl e \<Rightarrow> Inl e
             | Inr meta' \<Rightarrow> collect_skills safe_load rest (skills @ [meta']))
          else collect_skills safe_load rest skills))"

definition discover_skills :: "yaml_loader \<Rightarrow> (string \<times> node) list \<Rightarrow> py_error + pyval list" where
  "discover_skills safe_load files =
     (case collect_skills safe_load files [] of
        Inl e \<Rightarrow> Inl e
      | Inr skills \<Rightarrow> py_sorted (\<lambda>x. py_get x ''name'' (PStr [])) skills)"

text \<open>
  \<^verbatim>\<open>_format_markdown_catalog\<close>. The dictionary \<open>by_category\<close> is the list of its items
  in insertion order; its keys are compared as a dictionary compares them (\<^verbatim>\<open>==\<close>), and
  a list or a dictionary cannot be a key.
\<close>

fun hashable :: "pyval \<Rightarrow> bool" where
  "hashable (PList xs) = False"
| "hashable (PDict kvs) = False"
| "hashable _ = True"

fun group_append ::
  "pyval \<Rightarrow> pyval \<Rightarrow> (pyval \<times> pyval list) list \<Rightarrow> (pyval \<times> pyval list) list" where
  "group_append category skill [] = [(category, [skill])]"
| "group_append category skill ((k, members) # groups) =
     (if py_eq k category then (k, members @ [skill]) # groups
      else (k, members) # group_append category skill groups)"

fun group_by_category ::
  "pyval list \<Rightarrow> (pyval \<times> pyval list) list \<Rightarrow> py_error + (pyval \<times> pyval list) list" where
  "group_by_category [] by_category = Inr by_category"
| "group_by_category (skill # skills) by_category =
     (case py_get skill ''category'' (PStr ''uncategorized'') of
        Inl e \<Rightarrow> Inl e
      | Inr category \<Rightarrow>
          if hashable category
          then group_by_category skills (group_append category skill by_category)
          else Inl TypeError)"

fun group_lookup :: "(pyval \<times> pyval list) list \<Rightarrow> pyval \<Rightarrow> py_error + pyval list" where
  "group_lookup [] category = Inl KeyError"
| "group_lookup ((k, members) # groups) category =
     (if py_eq k category then Inr members else group_lookup groups category)"

text \<open>\<^verbatim>\<open>sep.join(v)\<close>: \<open>v\<close> is iterated and every item must be a string.\<close>

fun py_iter :: "pyval \<Rightarrow> py_error + pyval list" where
  "py_iter (PList xs) = Inr xs"
| "py_iter (PStr s) = Inr (map (\<lambda>c. PStr [c]) s)"
| "py_iter (PDict kvs) = Inr (map fst kvs)"
| "py_iter _ = Inl TypeError"

fun str_items :: "pyval list \<Rightarrow> py_error + string list" where
  "str_items [] = Inr []"
| "str_items (x # xs) =
     (case x of
        PStr s \<Rightarrow> (case str_items xs of Inl e \<Rightarrow> Inl e | Inr ss \<Rightarrow> Inr (s # ss))
      | _ \<Rightarrow> Inl TypeError)"

fun join :: "string \<Rightarrow> string list \<Rightarrow> string" where
  "join sep [] = []"
| "join sep [s] = s"
| "join sep (s # t # ss) = s @ sep @ join sep (t # ss)"

definition py_join :: "string \<Rightarrow> pyval \<Rightarrow> py_error + string" where
  "py_join sep v =
     (case py_iter v of
        Inl e \<Rightarrow> Inl e
      | Inr xs \<Rightarrow> (case str_items xs of Inl e \<Rightarrow> Inl e | Inr ss \<Rightarrow> Inr (join sep ss)))"

text \<open>
  A value inside an f-string: a string stands for itself, any other value is converted
  by \<^verbatim>\<open>str()\<close>, the parameter \<open>py_str\<close>.
\<close>

definition py_format :: "(pyval \<Rightarrow> string) \<Rightarrow> pyval \<Rightarrow> string" where
  "py_format py_str v = (case v of PStr s \<Rightarrow> s | _ \<Rightarrow> py_str v)"

text \<open>The four lines appended for one skill.\<close>

definition skill_lines :: "(pyval \<Rightarrow> string) \<Rightarrow> pyval \<Rightarrow> py_error + string list" where
  "skill_lines py_str skill =
     (case py_get skill ''name'' (PStr ''Unknown'') of
        Inl e \<Rightarrow> Inl e
      | Inr name \<Rightarrow>
     (case py_get skill ''version'' (PStr ''0.0.0'') of
        Inl e \<Rightarrow> Inl e
      | Inr version \<Rightarrow>
     (case py_get skill ''description'' (PStr ''No description'') of
        Inl e \<Rightarrow> Inl e
      | Inr description \<Rightarrow>
     (case py_get skill ''path'' (PStr []) of
        Inl e \<Rightarrow> Inl e
      | Inr path \<Rightarrow>
     (case py_get skill ''tags'' (PList []) of
        Inl e \<Rightarrow> Inl e
      | Inr tag_list \<Rightarrow>
     (case py_join '', '' tag_list of
        Inl e \<Rightarrow> Inl e
      | Inr tags \<Rightarrow>
          Inr [''### '' @ py_format py_str name @ '' (v'' @ py_format py_str version @ '')'' @ [NL],
               py_format py_str description @ [NL],
               ''**Tags:** '' @ tags @ ''  '' @ [NL],
               ''**Path:** '' @ [CHR 0x60] @ py_format py_str path @ [CHR 0x60, NL]]))))))"

fun render_skills ::
  "(pyval \<Rightarrow> string) \<Rightarrow> pyval list \<Rightarrow> string list \<Rightarrow> py_error + string list" where
  "render_skills py_str [] lines = Inr lines"
| "render_skills py_str (skill # skills) lines =
     (case skill_lines py_str skill of
        Inl e \<Rightarrow> Inl e
      | Inr block \<Rightarrow> render_skills py_str skills (lines @ block))"

text \<open>
  The loop over the sorted categories. \<^verbatim>\<open>category.title()\<close> exists for a string only;
  \<open>title\<close> is \<^verbatim>\<open>str.title\<close>.
\<close>

fun render_categories ::
  "(string \<Rightarrow> string) \<Rightarrow> (pyval \<Rightarrow> string) \<Rightarrow> (pyval \<times> pyval list) list \<Rightarrow> pyval list
     \<Rightarrow> string list \<Rightarrow> py_error + string list" where
  "render_categories title py_str by_category [] lines = Inr lines"
| "render_categories title py_str by_category (category # categories) lines =
     (case category of
        PStr c \<Rightarrow>
          (case group_lookup by_category category of
             Inl e \<Rightarrow> Inl e
           | Inr members \<Rightarrow>
               (case render_skills py_str members (lines @ [[NL] @ ''## '' @ title c @ [NL]]) of
                  Inl e \<Rightarrow> Inl e
                | Inr lines' \<Rightarrow>
                    render_categories title py_str by_category categories lines'))
      | _ \<Rightarrow> Inl AttributeError)"

text \<open>
  The list \<open>lines\<close> before it is joined; \<open>now\<close> is \<^verbatim>\<open>datetime.now().isoformat()\<close>.
\<close>

definition markdown_lines ::
  "(string \<Rightarrow> string) \<Rightarrow> (pyval \<Rightarrow> string) \<Rightarrow> string \<Rightarrow> pyval list
     \<Rightarrow> py_error + string list" where
  "markdown_lines title py_str now skills =
     (case group_by_category skills [] of
        Inl e \<Rightarrow> Inl e
      | Inr by_category \<Rightarrow>
          (case py_sorted Inr (map fst by_category) of
             Inl e \<Rightarrow> Inl e
           | Inr categories \<Rightarrow>
               render_categories title py_str by_category categories
                 [''# Skills Catalog'' @ [NL],
                  ''Generated: '' @ now @ [NL],
                  ''Total Skills: '' @ py_str (PInt (int (length skills))) @ [NL]]))"

definition format_markdown_catalog ::
  "(string \<Rightarrow> string) \<Rightarrow> (pyval \<Rightarrow> string) \<Rightarrow> string \<Rightarrow> pyval list \<Rightarrow> py_error + string" where
  "format_markdown_catalog title py_str now skills =
     (case markdown_lines title py_str now skills of
        Inl e \<Rightarrow> Inl e
      | Inr lines \<Rightarrow> Inr (join [NL] lines))"

subsection \<open>Instances of the parameters, for concrete documents\<close>

text \<open>A text given by its lines, each ended by a line feed.\<close>

definition text_of_lines :: "string list \<Rightarrow> string" where
  "text_of_lines ls = concat (map (\<lambda>l. l @ [NL]) ls)"

text \<open>
  \<^verbatim>\<open>re.match\<close> with the two default patterns, on code points below 256. \<^verbatim>\<open>$\<close> also
  matches before a final line feed. \<open>name_from seen\<close> reads
  \<^verbatim>\<open>[a-z0-9]+(-[a-z0-9]+)*$\<close> where \<open>seen\<close> says that the current segment has a
  character; \<open>version_from k seen\<close> reads the rest of \<^verbatim>\<open>\d+\.\d+\.\d+$\<close> with \<open>k\<close> dots
  to come.
\<close>

definition is_digit :: "char \<Rightarrow> bool" where
  "is_digit c = (CHR ''0'' \<le> c \<and> c \<le> CHR ''9'')"

definition is_lower :: "char \<Rightarrow> bool" where
  "is_lower c = (CHR ''a'' \<le> c \<and> c \<le> CHR ''z'')"

definition is_upper :: "char \<Rightarrow> bool" where
  "is_upper c = (CHR ''A'' \<le> c \<and> c \<le> CHR ''Z'')"

fun name_from :: "bool \<Rightarrow> string \<Rightarrow> bool" where
  "name_from seen [] = seen"
| "name_from seen (c # cs) =
     (if is_lower c \<or> is_digit c then name_from True cs
      else if c = CHR ''-'' \<and> seen then name_from False cs
      else c = NL \<and> cs = [] \<and> seen)"

fun version_from :: "nat \<Rightarrow> bool \<Rightarrow> string \<Rightarrow> bool" where
  "version_from k seen [] = (k = 0 \<and> seen)"
| "version_from k seen (c # cs) =
     (if is_digit c then version_from k True cs
      else if c = CHR ''.'' \<and> seen \<and> 0 < k then version_from (k - 1) False cs
      else c = NL \<and> cs = [] \<and> k = 0 \<and> seen)"

text \<open>
  A compiler that knows the two default patterns and refuses every other one; it stands
  for \<^verbatim>\<open>re.compile\<close> under the default configuration only.
\<close>

definition default_re_compile :: re_compiler where
  "default_re_compile pattern =
     (if pattern = NAME_PATTERN then Inr (name_from False)
      else if pattern = VERSION_PATTERN then Inr (version_from 2 False)
      else Inl RegexError)"

text \<open>
  \<^verbatim>\<open>str.title\<close> on ASCII text: the first letter of every run of letters in upper case,
  the others in lower case.
\<close>

definition to_upper :: "char \<Rightarrow> char" where
  "to_upper c = (if is_lower c then char_of (of_char c - (32::nat)) else c)"

definition to_lower :: "char \<Rightarrow> char" where
  "to_lower c = (if is_upper c then char_of (of_char c + (32::nat)) else c)"

fun title_from :: "bool \<Rightarrow> string \<Rightarrow> string" where
  "title_from previous_cased [] = []"
| "title_from previous_cased (c # cs) =
     (if is_lower c \<or> is_upper c
      then (if previous_cased then to_lower c else to_upper c) # title_from True cs
      else c # title_from False cs)"

definition ascii_title :: "string \<Rightarrow> string" where
  "ascii_title s = title_from False s"

text \<open>
  \<^verbatim>\<open>str()\<close> of a natural number, and of \<^verbatim>\<open>None\<close>, a \<^verbatim>\<open>bool\<close>, an \<^verbatim>\<open>int\<close> and a
  string. This instance does not render floats, lists and dictionaries (it gives the
  empty string for them); it is used on integers and strings only.
\<close>

function show_nat :: "nat \<Rightarrow> string" where
  "show_nat n =
     (if n < 10 then [char_of (48 + n)]
      else show_nat (n div 10) @ [char_of (48 + n mod 10)])"
  by pat_completeness auto
termination
  by (relation "measure id") auto

definition scalar_str :: "pyval \<Rightarrow> string" where
  "scalar_str v =
     (case v of
        PNone \<Rightarrow> ''None''
      | PBool b \<Rightarrow> (if b then ''True'' else ''False'')
      | PInt i \<Rightarrow> (if i < 0 then ''-'' @ show_nat (nat (- i)) else show_nat (nat i))
      | PStr s \<Rightarrow> s
      | _ \<Rightarrow> [])"

text \<open>
  What \<^verbatim>\<open>yaml.safe_load\<close> returns on the header texts of the documents used below. The
  table stands for the library on these texts only; any other text is answered with
  \<^verbatim>\<open>YAMLError\<close>.
\<close>

definition yaml_table :: "(string \<times> (py_error + pyval)) list" where
  "yaml_table =
     [(join [NL] [''name: test-skill'', ''version: 1.0.0'',
                  ''description: Test skill for validation'', ''author: Test Author'',
                  ''tags: [test, example]''],
       Inr (PDict [(PStr ''name'', PStr ''test-skill''), (PStr ''version'', PStr ''1.0.0''),
                   (PStr ''description'', PStr ''Test skill for validation''),
                   (PStr ''author'', PStr ''Test Author''),
                   (PStr ''tags'', PList [PStr ''test'', PStr ''example''])])),
      (join [NL] [''name: test-skill'', ''version: 1.0'', ''description: Test skill''],
       Inr (PDict [(PStr ''name'', PStr ''test-skill''), (PStr ''version'', PFloat 1),
                   (PStr ''description'', PStr ''Test skill'')])),
      (join [NL] [''name: Test_Skill_123'', ''version: v1''],
       Inr (PDict [(PStr ''name'', PStr ''Test_Skill_123''), (PStr ''version'', PStr ''v1'')])),
      (''name: a-skill'', Inr (PDict [(PStr ''name'', PStr ''a-skill'')])),
      (''name: b-skill'', Inr (PDict [(PStr ''name'', PStr ''b-skill'')])),
      (''category: tools'', Inr (PDict [(PStr ''category'', PStr ''tools'')])),
      (join [NL] [''name: a-skill'', ''path: elsewhere/SKILL.md''],
       Inr (PDict [(PStr ''name'', PStr ''a-skill''), (PStr ''path'', PStr ''elsewhere/SKILL.md'')])),
      (''just some notes'', Inr (PStr ''just some notes'')),
      (''{}'', Inr (PDict [])),
      ([], Inr PNone),
      (''name: [unclosed'', Inl YAMLError),
      (''name: 10'', Inr (PDict [(PStr ''name'', PInt 10)])),
      (''name: 9'', Inr (PDict [(PStr ''name'', PInt 9)]))]"

definition sample_safe_load :: yaml_loader where
  "sample_safe_load body = (case map_of yaml_table body of Some r \<Rightarrow> r | None \<Rightarrow> Inl YAMLError)"

text \<open>
  Documents of \<^verbatim>\<open>tests/test_skill.py\<close>: the valid skill of \<^verbatim>\<open>test_validate_skill_valid\<close>,
  the skill with \<^verbatim>\<open>version: 1.0\<close> of \<^verbatim>\<open>test_validate_skill_invalid_version\<close>, and the
  text without a header of \<^verbatim>\<open>test_extract_frontmatter_missing\<close>.
\<close>

definition doc_valid :: string where
  "doc_valid = text_of_lines
     [''---'', ''name: test-skill'', ''version: 1.0.0'',
      ''description: Test skill for validation'', ''author: Test Author'',
      ''tags: [test, example]'', ''---'', [], ''# Test Skill'', [],
      ''## Overview'', [], ''This is a test skill.'', [], ''## Instructions'', [],
      ''### Step 1: Do something'', [], ''Do the thing.'', [], ''## Examples'', [],
      ''### Example 1: Basic'', [], ''Input: test'', ''Output: result'']"

definition doc_version_float :: string where
  "doc_version_float = text_of_lines
     [''---'', ''name: test-skill'', ''version: 1.0'', ''description: Test skill'', ''---'',
      [], ''# Test Skill'']"

definition doc_no_header :: string where
  "doc_no_header = join [NL] [''# Test Skill'', [], ''No frontmatter here.'']"


definition doc_empty_mapping :: string where
  "doc_empty_mapping = text_of_lines [''---'', ''{}'', ''---'', [], ''# Test Skill'']"

definition doc_null_header :: string where
  "doc_null_header = text_of_lines [''---'', [], ''---'', [], ''# Test Skill'']"

text \<open>Three skill files as \<^verbatim>\<open>rglob\<close> may list them; the second declares no name.\<close>

definition sample_tree :: "(string \<times> node) list" where
  "sample_tree =
     [(''b/SKILL.md'', TextFile (text_of_lines [''---'', ''name: b-skill'', ''---''])),
      (''tools/SKILL.md'', TextFile (text_of_lines [''---'', ''category: tools'', ''---''])),
      (''a/SKILL.md'', TextFile (text_of_lines [''---'', ''name: a-skill'', ''---'']))]"

text \<open>Three catalog entries with the categories \<^verbatim>\<open>alpha\<close>, \<^verbatim>\<open>Beta\<close> and none.\<close>

definition sample_skills :: "pyval list" where
  "sample_skills =
     [PDict [(PStr ''name'', PStr ''a''), (PStr ''category'', PStr ''alpha'')],
      PDict [(PStr ''name'', PStr ''b''), (PStr ''category'', PStr ''Beta'')],
      PDict [(PStr ''name'', PStr ''c'')]]"

subsection \<open>Notions the statements use\<close>

text \<open>The string a value is when it is one.\<close>

fun str_of :: "pyval \<Rightarrow> string" where
  "str_of (PStr s) = s"
| "str_of _ = []"

fun is_str :: "pyval \<Rightarrow> bool" where
  "is_str (PStr s) = True"
| "is_str _ = False"

text \<open>\<open>m\<close> is a mapping whose value under \<open>key\<close>, if it has one, is a string.\<close>

definition string_valued :: "string \<Rightarrow> pyval \<Rightarrow> bool" where
  "string_valued key m =
     (case m of
        PDict kvs \<Rightarrow> (case map_of kvs (PStr key) of None \<Rightarrow> True | Some v \<Rightarrow> is_str v)
      | _ \<Rightarrow> False)"

text \<open>
  The sort key \<^verbatim>\<open>x.get('name', '')\<close> and the group key
  \<^verbatim>\<open>skill.get('category', 'uncategorized')\<close> of an entry, as strings.
\<close>

definition name_of :: "pyval \<Rightarrow> string" where
  "name_of skill = (case py_get skill ''name'' (PStr []) of Inr v \<Rightarrow> str_of v | Inl e \<Rightarrow> [])"

definition category_of :: "pyval \<Rightarrow> string" where
  "category_of skill =
     (case py_get skill ''category'' (PStr ''uncategorized'') of
        Inr v \<Rightarrow> str_of v
      | Inl e \<Rightarrow> [])"

text \<open>
  The entry a skill file contributes to the catalog: none unless its metadata is a
  mapping with at least one key, else the mapping with \<open>path\<close> set.
\<close>

fun skill_entries :: "yaml_loader \<Rightarrow> string \<times> node \<Rightarrow> pyval list" where
  "skill_entries safe_load (rel, TextFile content) =
     (case extract_frontmatter safe_load content of
        Inr (PDict kvs) \<Rightarrow>
          (if kvs \<noteq> [] then [PDict (dict_update (PStr ''path'') (PStr rel) kvs)] else [])
      | _ \<Rightarrow> [])"
| "skill_entries safe_load (rel, Unreadable e) = []"

text \<open>
  A skill file the catalog can take: it can be read, extraction returns, and the
  metadata is empty or a mapping whose name, if it has one, is a string.
\<close>

fun well_formed_skill_file :: "yaml_loader \<Rightarrow> string \<times> node \<Rightarrow> bool" where
  "well_formed_skill_file safe_load (rel, TextFile content) =
     (case extract_frontmatter safe_load content of
        Inr m \<Rightarrow> \<not> truthy m \<or> string_valued ''name'' m
      | Inl e \<Rightarrow> False)"
| "well_formed_skill_file safe_load (rel, Unreadable e) = False"

text \<open>The four lines of an entry can be produced, and the lines themselves.\<close>

definition renders :: "(pyval \<Rightarrow> string) \<Rightarrow> pyval \<Rightarrow> bool" where
  "renders py_str skill = (case skill_lines py_str skill of Inr block \<Rightarrow> True | Inl e \<Rightarrow> False)"

definition block_of :: "(pyval \<Rightarrow> string) \<Rightarrow> pyval \<Rightarrow> string list" where
  "block_of py_str skill = (case skill_lines py_str skill of Inr block \<Rightarrow> block | Inl e \<Rightarrow> [])"


text \<open>Groups keyed by strings only, and the members a key has in them.\<close>

definition str_keyed :: "(pyval \<times> 'a) list \<Rightarrow> bool" where
  "str_keyed groups = (\<forall>k \<in> fst ` set groups. is_str k)"

definition members_of :: "(pyval \<times> pyval list) list \<Rightarrow> pyval \<Rightarrow> pyval list" where
  "members_of groups k = (case map_of groups k of None \<Rightarrow> [] | Some ms \<Rightarrow> ms)"

section \<open>Properties of the extractor\<close>

lemma is_space_NL: "is_space NL"
  by (simp add: is_space_def)

lemma ws_newline_rests_space_prefix:
  "\<forall>c \<in> set ws. is_space c \<Longrightarrow>
   ws_newline_rests (ws @ s) = map (\<lambda>r. r @ s) (ws_newline_rests ws) @ ws_newline_rests s"
  by (induction ws) auto

lemma ws_newline_rests_first_line:
  "dropWhile is_space b \<noteq> [] \<Longrightarrow> NL \<notin> set (takeWhile is_space b) \<Longrightarrow>
   ws_newline_rests (b @ t) = []"
  by (induction b) (auto simp: is_space_NL split: if_splits)

lemma closing_at_delimiter:
  assumes "\<forall>c \<in> set ws. is_space c"
  shows "closing_at (NL # ''---'' @ ws @ NL # rest)"
  using assms by (simp add: closing_at_def ws_newline_rests_space_prefix)

lemma lazy_body_no_delimiter:
  "\<not> closing_in r \<Longrightarrow> lazy_body acc r = None"
  by (induction r arbitrary: acc) (auto simp: closing_at_def)

lemma ws_newline_rests_no_newline:
  "\<forall>c \<in> set ws. is_space c \<Longrightarrow> NL \<notin> set ws \<Longrightarrow> ws_newline_rests ws = []"
  by (induction ws) auto

lemma ws_newline_rests_line_end:
  "(ws_newline_rests (u @ NL # x) = []) = (ws_newline_rests (u @ [NL]) = [])"
  by (induction u) auto

lemma not_closing_before_delimiter:
  assumes "\<not> closing_at ((c # cs) @ [NL])"
  shows "\<not> closing_at (c # cs @ NL # ''---'' @ t)"
proof
  assume closing: "closing_at (c # cs @ NL # ''---'' @ t)"
  then have "prefix (NL # ''---'') (c # cs @ NL # ''---'' @ t)"
    unfolding closing_at_def by blast
  then have "prefix (NL # ''---'') (c # cs)"
    by (auto simp: prefix_append Cons_eq_append_conv)
  then obtain u where u: "c # cs = (NL # ''---'') @ u"
    by (auto simp: prefix_def)
  from closing have "ws_newline_rests (drop 4 (c # cs @ NL # ''---'' @ t)) \<noteq> []"
    unfolding closing_at_def by blast
  moreover have "c # cs @ NL # ''---'' @ t = NL # ''---'' @ (u @ NL # ''---'' @ t)"
    using u by simp
  then have "drop 4 (c # cs @ NL # ''---'' @ t) = u @ NL # ''---'' @ t"
    by simp
  ultimately have "ws_newline_rests (u @ [NL]) \<noteq> []"
    using ws_newline_rests_line_end [of u "''---'' @ t"] by simp
  moreover have "(c # cs) @ [NL] = (NL # ''---'') @ u @ [NL]"
    using u by simp
  ultimately have "closing_at ((c # cs) @ [NL])"
    by (simp add: closing_at_def)
  with assms show False by contradiction
qed

lemma lazy_body_stops_at_delimiter:
  assumes "\<not> closing_in (b @ [NL])" and "closing_at (NL # ''---'' @ t)"
  shows "lazy_body acc (b @ NL # ''---'' @ t) = Some (rev acc @ b)"
  using assms
proof (induction b arbitrary: acc)
  case Nil
  then show ?case by simp
next
  case (Cons c cs)
  from Cons.prems(1) have here: "\<not> closing_at ((c # cs) @ [NL])"
    and later: "\<not> closing_in (cs @ [NL])"
    by simp_all
  from Cons.IH [OF later Cons.prems(2), of "c # acc"]
  have "lazy_body (c # acc) (cs @ NL # ''---'' @ t) = Some (rev (c # acc) @ cs)" .
  moreover have "\<not> closing_at (c # cs @ NL # ''---'' @ t)"
    using here by (rule not_closing_before_delimiter)
  ultimately show ?case by simp
qed

lemma frontmatter_match_block:
  assumes pad: "\<forall>c \<in> set pad. is_space c"
    and pad': "\<forall>c \<in> set pad'. is_space c"
    and first: "NL \<notin> set (takeWhile is_space body)"
    and blank: "dropWhile is_space body \<noteq> [] \<or> \<not> closing_in (''---'' @ pad' @ NL # rest)"
    and inside: "\<not> closing_in (body @ [NL])"
  shows "frontmatter_match (''---'' @ pad @ NL # body @ NL # ''---'' @ pad' @ NL # rest) = Some body"
proof -
  let ?t = "pad' @ NL # rest"
  let ?x = "''---'' @ ?t"
  let ?r = "body @ NL # ?x"
  have split: "ws_newline_rests (pad @ NL # ?r) =
        map (\<lambda>r. r @ NL # ?r) (ws_newline_rests pad) @ ws_newline_rests (NL # ?r)"
    using pad by (rule ws_newline_rests_space_prefix)
  have "closing_at (NL # ''---'' @ ?t)"
    using pad' by (rule closing_at_delimiter)
  with inside have body: "lazy_body [] ?r = Some body"
    using lazy_body_stops_at_delimiter [of body ?t "[]"] by simp
  show ?thesis
  proof (cases "dropWhile is_space body = []")
    case False
    with first have "ws_newline_rests (NL # ?r) = [?r]"
      using ws_newline_rests_first_line [of body "NL # ?x"] by simp
    with split have "rev (ws_newline_rests (pad @ NL # ?r)) =
        ?r # rev (map (\<lambda>r. r @ NL # ?r) (ws_newline_rests pad))"
      by simp
    with body show ?thesis
      by (simp add: frontmatter_match_def)
  next
    case True
    then have spaces: "\<forall>c \<in> set body. is_space c"
      by simp
    then have "takeWhile is_space body = body"
      by simp
    with first have "NL \<notin> set body"
      by simp
    with spaces have "ws_newline_rests body = []"
      by (rule ws_newline_rests_no_newline)
    with ws_newline_rests_space_prefix [OF spaces, of "NL # ?x"]
    have "ws_newline_rests ?r = [?x]"
      by (simp add: is_space_def)
    with split have "rev (ws_newline_rests (pad @ NL # ?r)) =
        ?x # ?r # rev (map (\<lambda>r. r @ NL # ?r) (ws_newline_rests pad))"
      by simp
    moreover from True blank have "lazy_body [] ?x = None"
      by (intro lazy_body_no_delimiter) simp
    ultimately show ?thesis
      using body by (simp add: frontmatter_match_def)
  qed
qed

text \<open>
  What the \<^verbatim>\<open>except\<close> clause gives: a text without a header block, and a text whose
  header makes \<^verbatim>\<open>yaml.safe_load\<close> raise \<^verbatim>\<open>yaml.YAMLError\<close>, both give \<^verbatim>\<open>None\<close>.
\<close>

lemma extract_frontmatter_absent:
  assumes "frontmatter_match plain = None"
    and "frontmatter_match malformed = Some body"
    and "safe_load body = Inl YAMLError"
  shows "extract_frontmatter safe_load plain = Inr PNone \<and>
         extract_frontmatter safe_load malformed = Inr PNone"
  using assms by (simp add: extract_frontmatter_def)

text \<open>
  C4 does not hold of the code. A header whose text is a plain scalar does not parse as
  a mapping, and \<^verbatim>\<open>extract_frontmatter\<close>, declared to return \<^verbatim>\<open>Optional[Dict]\<close>,
  returns the string instead of \<^verbatim>\<open>None\<close>. The catalog builder, which assigns \<open>path\<close>
  to what extraction returns, raises \<^verbatim>\<open>TypeError\<close> on that file.
\<close>

theorem extract_frontmatter_scalar_body_returned:
  "sample_safe_load ''just some notes'' = Inr (PStr ''just some notes'') \<and>
   extract_frontmatter sample_safe_load (text_of_lines [''---'', ''just some notes'', ''---'']) =
     Inr (PStr ''just some notes'') \<and>
   discover_skills sample_safe_load
     [(''notes/SKILL.md'', TextFile (text_of_lines [''---'', ''just some notes'', ''---'']))] =
     Inl TypeError"
  by code_simp

text \<open>
  C5, as the code has it. A text that starts, at its first character, with three
  hyphens, white space and a line feed, then a body, then a line feed, three hyphens,
  white space and a line feed, has its header block detected, and extraction returns what
  \<^verbatim>\<open>yaml.safe_load\<close> gives for the body. The body is the text between the two
  delimiters as the pattern reads them: blank lines after the opening hyphens belong to
  its white space, so the body does not start with one, no closing delimiter matches
  inside the body, and a body that is blank is not followed by a further closing
  delimiter.
\<close>

theorem extract_frontmatter_block:
  assumes "list_all is_space pad"
    and "list_all is_space pad'"
    and "NL \<notin> set (takeWhile is_space body)"
    and "dropWhile is_space body \<noteq> [] \<or> \<not> closing_in (''---'' @ pad' @ NL # rest)"
    and "\<not> closing_in (body @ [NL])"
    and "safe_load body = Inr v"
  shows "frontmatter_match (''---'' @ pad @ NL # body @ NL # ''---'' @ pad' @ NL # rest) = Some body \<and>
         extract_frontmatter safe_load (''---'' @ pad @ NL # body @ NL # ''---'' @ pad' @ NL # rest) = Inr v"
proof -
  have "frontmatter_match (''---'' @ pad @ NL # body @ NL # ''---'' @ pad' @ NL # rest) = Some body"
    using assms(1-5) by (intro frontmatter_match_block) (simp_all add: list_all_iff)
  with assms(6) show ?thesis
    by (simp add: extract_frontmatter_def)
qed

text \<open>
  A header with a space after the opening hyphens, and a header with a blank line
  between the delimiters.
\<close>

theorem extract_frontmatter_block_witness:
  "list_all is_space '' '' \<and> list_all is_space [] \<and>
   NL \<notin> set (takeWhile is_space ''name: a-skill'') \<and>
   dropWhile is_space ''name: a-skill'' \<noteq> [] \<and>
   \<not> closing_in (''name: a-skill'' @ [NL]) \<and>
   sample_safe_load ''name: a-skill'' = Inr (PDict [(PStr ''name'', PStr ''a-skill'')]) \<and>
   extract_frontmatter sample_safe_load
     (''---'' @ '' '' @ NL # ''name: a-skill'' @ NL # ''---'' @ [] @ NL # ''# Title'') =
     Inr (PDict [(PStr ''name'', PStr ''a-skill'')]) \<and>
   NL \<notin> set (takeWhile is_space []) \<and>
   \<not> closing_in (''---'' @ [] @ NL # ''# Title'') \<and>
   \<not> closing_in ([] @ [NL]) \<and>
   sample_safe_load [] = Inr PNone \<and>
   extract_frontmatter sample_safe_load
     (''---'' @ [] @ NL # [] @ NL # ''---'' @ [] @ NL # ''# Title'') = Inr PNone"
proof -
  have h1: "list_all is_space '' ''" by code_simp
  have h2: "list_all is_space []" by simp
  have h3: "NL \<notin> set (takeWhile is_space ''name: a-skill'')" by code_simp
  have h4: "dropWhile is_space ''name: a-skill'' \<noteq> []" by code_simp
  have h5: "\<not> closing_in (''name: a-skill'' @ [NL])" by code_simp
  have h6: "sample_safe_load ''name: a-skill'' = Inr (PDict [(PStr ''name'', PStr ''a-skill'')])"
    by code_simp
  have b3: "NL \<notin> set (takeWhile is_space [])" by simp
  have b4: "\<not> closing_in (''---'' @ [] @ NL # ''# Title'')" by code_simp
  have b5: "\<not> closing_in ([] @ [NL])" by code_simp
  have b6: "sample_safe_load [] = Inr PNone" by code_simp
  from h4 have h4': "dropWhile is_space ''name: a-skill'' \<noteq> [] \<or>
      \<not> closing_in (''---'' @ [] @ NL # ''# Title'')"
    by simp
  from b4 have b4': "dropWhile is_space [] \<noteq> [] \<or> \<not> closing_in (''---'' @ [] @ NL # ''# Title'')"
    by simp
  note named = extract_frontmatter_block [where pad = "'' ''" and pad' = "[]"
      and body = "''name: a-skill''" and safe_load = sample_safe_load and rest = "''# Title''",
      OF h1 h2 h3 h4' h5 h6]
  note blank = extract_frontmatter_block [where pad = "[]" and pad' = "[]"
      and body = "[]" and safe_load = sample_safe_load and rest = "''# Title''",
      OF h2 h2 b3 b4' b5 b6]
  from named blank h1 h2 h3 h4 h5 h6 b3 b4 b5 b6 show ?thesis
    by blast
qed

text \<open>
  C5 as stated fails: the match is anchored at the first character, so a header block
  after a leading space or a leading blank line is not detected.
\<close>

theorem extract_frontmatter_leading_space_counterexample:
  "extract_frontmatter sample_safe_load (text_of_lines [''---'', ''name: a-skill'', ''---'']) =
     Inr (PDict [(PStr ''name'', PStr ''a-skill'')]) \<and>
   extract_frontmatter sample_safe_load
     (CHR '' '' # text_of_lines [''---'', ''name: a-skill'', ''---'']) = Inr PNone \<and>
   extract_frontmatter sample_safe_load
     (NL # text_of_lines [''---'', ''name: a-skill'', ''---'']) = Inr PNone"
  by code_simp

section \<open>Properties of the validator\<close>

text \<open>
  C1, as the code has it. In every result \<^verbatim>\<open>validate_skill\<close> returns, \<open>valid\<close> implies
  that \<open>errors\<close> is empty. The converse holds when \<^verbatim>\<open>require_frontmatter\<close> is set, and
  when the result carries metadata; what is left is the early return for a document
  without metadata under \<^verbatim>\<open>require_frontmatter = false\<close>.
\<close>

theorem valid_iff_no_errors_when_required:
  assumes "validate_skill safe_load re_compile config fs skill_path = Inr r"
  shows "(valid r \<longrightarrow> errors r = []) \<and>
         (require_frontmatter config \<or> metadata r \<noteq> None \<longrightarrow> (valid r \<longleftrightarrow> errors r = []))"
  using assms
  by (auto simp: validate_skill_def Let_def split: option.splits sum.splits if_splits)

text \<open>The valid skill of the tests: the result is valid and has no errors.\<close>

theorem valid_iff_no_errors_witness:
  "validate_skill sample_safe_load default_re_compile default_config
     [''SKILL.md'' \<mapsto> TextFile doc_valid] ''SKILL.md'' =
   Inr \<lparr> valid = True, errors = [],
         metadata = Some (PDict
           [(PStr ''name'', PStr ''test-skill''), (PStr ''version'', PStr ''1.0.0''),
            (PStr ''description'', PStr ''Test skill for validation''),
            (PStr ''author'', PStr ''Test Author''),
            (PStr ''tags'', PList [PStr ''test'', PStr ''example''])]) \<rparr> \<and>
   require_frontmatter default_config"
proof -
  have run: "validate_skill sample_safe_load default_re_compile default_config
      [''SKILL.md'' \<mapsto> TextFile doc_valid] ''SKILL.md'' =
    Inr \<lparr> valid = True, errors = [],
          metadata = Some (PDict
            [(PStr ''name'', PStr ''test-skill''), (PStr ''version'', PStr ''1.0.0''),
             (PStr ''description'', PStr ''Test skill for validation''),
             (PStr ''author'', PStr ''Test Author''),
             (PStr ''tags'', PList [PStr ''test'', PStr ''example''])]) \<rparr>"
    by code_simp
  have "require_frontmatter default_config"
    by (simp add: default_config_def)
  with valid_iff_no_errors_when_required [OF run] run show ?thesis
    by simp
qed

text \<open>
  C1 as stated fails: with \<^verbatim>\<open>require_frontmatter\<close> false, the text without a header
  gets \<open>valid = False\<close> and an empty list of errors.
\<close>

theorem valid_iff_no_errors_counterexample:
  "validate_skill sample_safe_load default_re_compile
     (default_config \<lparr> require_frontmatter := False \<rparr>)
     [''SKILL.md'' \<mapsto> TextFile doc_no_header] ''SKILL.md'' =
   Inr \<lparr> valid = False, errors = [], metadata = None \<rparr> \<and>
   \<not> (valid \<lparr> valid = False, errors = [], metadata = None \<rparr> \<longleftrightarrow>
      errors \<lparr> valid = False, errors = [], metadata = None \<rparr> = [])"
  by code_simp

text \<open>
  C2. When \<^verbatim>\<open>require_frontmatter\<close> is false and extraction gives no metadata (\<^verbatim>\<open>None\<close>
  for a text without a header block or with a header that YAML rejects, or any other
  false value), the result is \<open>valid = False\<close> with no errors. No further check runs: the
  result is the same for every list of required fields, every pattern and every
  \<^verbatim>\<open>re.compile\<close>, also one that would raise, and whatever sections the text has.
\<close>

theorem no_metadata_not_required:
  assumes "\<not> require_frontmatter config"
    and "fs skill_path = Some (TextFile content)"
    and "extract_frontmatter safe_load content = Inr m"
    and "\<not> truthy m"
  shows "validate_skill safe_load re_compile config fs skill_path =
           Inr \<lparr> valid = False, errors = [], metadata = None \<rparr>"
  using assms by (simp add: validate_skill_def)

text \<open>
  A header that YAML rejects, a required field that is not there, and a \<^verbatim>\<open>re.compile\<close>
  that raises on every pattern.
\<close>

theorem no_metadata_not_required_witness:
  "\<not> require_frontmatter \<lparr> require_frontmatter = False, required_fields = [''owner''],
       naming_pattern = ''('', version_pattern = ''('' \<rparr> \<and>
   [''SKILL.md'' \<mapsto> TextFile (text_of_lines [''---'', ''name: [unclosed'', ''---''])] ''SKILL.md'' =
     Some (TextFile (text_of_lines [''---'', ''name: [unclosed'', ''---''])) \<and>
   extract_frontmatter sample_safe_load (text_of_lines [''---'', ''name: [unclosed'', ''---'']) =
     Inr PNone \<and>
   \<not> truthy PNone \<and>
   validate_skill sample_safe_load (\<lambda>pattern. Inl RegexError)
     \<lparr> require_frontmatter = False, required_fields = [''owner''],
       naming_pattern = ''('', version_pattern = ''('' \<rparr>
     [''SKILL.md'' \<mapsto> TextFile (text_of_lines [''---'', ''name: [unclosed'', ''---''])] ''SKILL.md'' =
     Inr \<lparr> valid = False, errors = [], metadata = None \<rparr>"
proof -
  have fm: "extract_frontmatter sample_safe_load
      (text_of_lines [''---'', ''name: [unclosed'', ''---'']) = Inr PNone"
    by code_simp
  have "validate_skill sample_safe_load (\<lambda>pattern. Inl RegexError)
     \<lparr> require_frontmatter = False, required_fields = [''owner''],
       naming_pattern = ''('', version_pattern = ''('' \<rparr>
     [''SKILL.md'' \<mapsto> TextFile (text_of_lines [''---'', ''name: [unclosed'', ''---''])] ''SKILL.md'' =
     Inr \<lparr> valid = False, errors = [], metadata = None \<rparr>"
    by (rule no_metadata_not_required [OF _ _ fm]) simp_all
  with fm show ?thesis
    by simp
qed






text \<open>
  C6 does not hold of the code. The skill of \<^verbatim>\<open>test_validate_skill_invalid_version\<close>
  declares \<^verbatim>\<open>version: 1.0\<close>, which YAML reads as a float; \<^verbatim>\<open>re.match\<close> then raises
  \<^verbatim>\<open>TypeError\<close> and \<^verbatim>\<open>validate_skill\<close> returns no result.
\<close>

theorem validate_skill_float_version_raises:
  "validate_skill sample_safe_load default_re_compile default_config
     [''SKILL.md'' \<mapsto> TextFile doc_version_float] ''SKILL.md'' = Inl TypeError"
  by code_simp

section \<open>Properties of the catalog\<close>

lemma collect_skills_append:
  "collect_skills safe_load (xs @ ys) acc =
     (case collect_skills safe_load xs acc of
        Inl e \<Rightarrow> Inl e
      | Inr acc' \<Rightarrow> collect_skills safe_load ys acc')"
  by (induction xs arbitrary: acc) (auto split: sum.splits)

text \<open>
  C9. A document whose header block parses to YAML null or to the empty mapping is
  treated as a document without a header block: under the default configuration
  \<^verbatim>\<open>validate_skill\<close> returns the invalid result with the single missing-frontmatter
  error, the result it returns for a text \<open>plain\<close> without a header block, and the
  catalog is the one built without the document.
\<close>

theorem empty_header_is_no_header:
  assumes "frontmatter_match content = Some body"
    and "safe_load body = Inr PNone \<or> safe_load body = Inr (PDict [])"
    and "frontmatter_match plain = None"
  shows "validate_skill safe_load re_compile default_config [skill_path \<mapsto> TextFile content] skill_path =
           Inr \<lparr> valid = False, errors = [''Missing YAML frontmatter''], metadata = None \<rparr> \<and>
         validate_skill safe_load re_compile default_config [skill_path \<mapsto> TextFile content] skill_path =
           validate_skill safe_load re_compile default_config [skill_path \<mapsto> TextFile plain] skill_path \<and>
         discover_skills safe_load (before @ (rel, TextFile content) # after) =
           discover_skills safe_load (before @ after)"
proof -
  from assms(1,2) have "extract_frontmatter safe_load content = Inr PNone \<or>
      extract_frontmatter safe_load content = Inr (PDict [])"
    by (auto simp: extract_frontmatter_def)
  moreover from assms(3) have "extract_frontmatter safe_load plain = Inr PNone"
    by (simp add: extract_frontmatter_def)
  ultimately show ?thesis
    by (auto simp: validate_skill_def default_config_def discover_skills_def
        collect_skills_append split: sum.splits)
qed

text \<open>A header holding \<^verbatim>\<open>{}\<close>, and a header holding a blank line.\<close>

theorem empty_header_is_no_header_witness:
  "frontmatter_match doc_empty_mapping = Some ''{}'' \<and>
   sample_safe_load ''{}'' = Inr (PDict []) \<and>
   frontmatter_match doc_null_header = Some [] \<and>
   sample_safe_load [] = Inr PNone \<and>
   frontmatter_match doc_no_header = None \<and>
   validate_skill sample_safe_load default_re_compile default_config
     [''SKILL.md'' \<mapsto> TextFile doc_empty_mapping] ''SKILL.md'' =
     Inr \<lparr> valid = False, errors = [''Missing YAML frontmatter''], metadata = None \<rparr> \<and>
   validate_skill sample_safe_load default_re_compile default_config
     [''SKILL.md'' \<mapsto> TextFile doc_null_header] ''SKILL.md'' =
     Inr \<lparr> valid = False, errors = [''Missing YAML frontmatter''], metadata = None \<rparr> \<and>
   discover_skills sample_safe_load
     ([(''a/SKILL.md'', TextFile (text_of_lines [''---'', ''name: a-skill'', ''---'']))] @
      (''e/SKILL.md'', TextFile doc_empty_mapping) # [(''n/SKILL.md'', TextFile doc_null_header)]) =
     Inr [PDict [(PStr ''name'', PStr ''a-skill''), (PStr ''path'', PStr ''a/SKILL.md'')]]"
proof -
  have e1: "frontmatter_match doc_empty_mapping = Some ''{}''"
    by code_simp
  have e2: "sample_safe_load ''{}'' = Inr (PDict [])"
    by code_simp
  have n1: "frontmatter_match doc_null_header = Some []"
    by code_simp
  have n2: "sample_safe_load [] = Inr PNone"
    by code_simp
  have p: "frontmatter_match doc_no_header = None"
    by code_simp
  have rest: "discover_skills sample_safe_load
     ([(''a/SKILL.md'', TextFile (text_of_lines [''---'', ''name: a-skill'', ''---'']))] @
      [(''n/SKILL.md'', TextFile doc_null_header)]) =
     Inr [PDict [(PStr ''name'', PStr ''a-skill''), (PStr ''path'', PStr ''a/SKILL.md'')]]"
    by code_simp
  from e2 have e2': "sample_safe_load ''{}'' = Inr PNone \<or> sample_safe_load ''{}'' = Inr (PDict [])"
    by simp
  from n2 have n2': "sample_safe_load [] = Inr PNone \<or> sample_safe_load [] = Inr (PDict [])"
    by simp
  note empty = empty_header_is_no_header [where safe_load = sample_safe_load, OF e1 e2' p,
      where re_compile = default_re_compile and skill_path = "''SKILL.md''" and rel = "''e/SKILL.md''"
      and before = "[(''a/SKILL.md'', TextFile (text_of_lines [''---'', ''name: a-skill'', ''---'']))]"
      and after = "[(''n/SKILL.md'', TextFile doc_null_header)]"]
  note null = empty_header_is_no_header [where safe_load = sample_safe_load, OF n1 n2' p,
      where re_compile = default_re_compile and skill_path = "''SKILL.md''" and rel = "''n/SKILL.md''" and before = "[]" and after = "[]"]
  from empty null rest e1 e2 n1 n2 p show ?thesis
    by simp
qed

lemma py_insort_mset:
  "py_insort x ys = Inr zs \<Longrightarrow> mset zs = add_mset x (mset ys)"
  by (induction ys arbitrary: zs) (auto split: sum.splits if_splits)

lemma py_sort_pairs_mset:
  "py_sort_pairs ps = Inr qs \<Longrightarrow> mset qs = mset ps"
  by (induction ps arbitrary: qs) (auto split: sum.splits dest: py_insort_mset)

lemma with_keys_snd:
  "with_keys key xs = Inr ps \<Longrightarrow> map snd ps = xs"
  by (induction xs arbitrary: ps) (auto split: sum.splits)

lemma py_sorted_mset:
  assumes "py_sorted key xs = Inr ys"
  shows "mset ys = mset xs"
proof -
  from assms obtain ps qs where
    ps: "with_keys key xs = Inr ps" and qs: "py_sort_pairs ps = Inr qs" and ys: "ys = map snd qs"
    by (auto simp: py_sorted_def split: sum.splits)
  have "mset (map snd qs) = mset (map snd ps)"
    using py_sort_pairs_mset [OF qs] by (metis mset_map)
  with with_keys_snd [OF ps] ys show ?thesis by simp
qed

lemma py_insort_strings:
  assumes "is_str (fst x)" and "\<forall>y \<in> set ys. is_str (fst y)"
  shows "py_insort x ys = Inr (insort_key (\<lambda>p. str_of (fst p)) x ys)"
  using assms
proof (induction ys)
  case Nil
  then show ?case by simp
next
  case (Cons y ys)
  from Cons.prems obtain a b where "fst x = PStr a" "fst y = PStr b"
    by (cases "fst x"; cases "fst y") auto
  with Cons show ?case
    by (auto simp: not_less)
qed

lemma py_sort_pairs_strings:
  assumes "\<forall>p \<in> set ps. is_str (fst p)"
  shows "py_sort_pairs ps = Inr (sort_key (\<lambda>p. str_of (fst p)) ps)"
  using assms
proof (induction ps)
  case Nil
  then show ?case by simp
next
  case (Cons p ps)
  then have "py_sort_pairs ps = Inr (sort_key (\<lambda>p. str_of (fst p)) ps)"
    by simp
  moreover have "py_insort p (sort_key (\<lambda>p. str_of (fst p)) ps) =
      Inr (insort_key (\<lambda>p. str_of (fst p)) p (sort_key (\<lambda>p. str_of (fst p)) ps))"
    using Cons.prems by (intro py_insort_strings) auto
  ultimately show ?case
    by simp
qed

lemma with_keys_total:
  assumes "\<forall>x \<in> set xs. \<exists>k. key x = Inr k"
  shows "\<exists>ps. with_keys key xs = Inr ps \<and> map snd ps = xs \<and>
              (\<forall>p \<in> set ps. key (snd p) = Inr (fst p))"
  using assms
proof (induction xs)
  case Nil
  then show ?case by simp
next
  case (Cons x xs)
  then obtain k ps where "key x = Inr k" "with_keys key xs = Inr ps" "map snd ps = xs"
    "\<forall>p \<in> set ps. key (snd p) = Inr (fst p)"
    by auto
  then show ?case by simp
qed

lemma py_sorted_strings:
  assumes "\<forall>x \<in> set xs. \<exists>s. key x = Inr (PStr s)"
  shows "py_sorted key xs = Inr (sort_key (\<lambda>x. case key x of Inr v \<Rightarrow> str_of v | Inl e \<Rightarrow> []) xs)"
proof -
  let ?f = "\<lambda>x. case key x of Inr v \<Rightarrow> str_of v | Inl e \<Rightarrow> []"
  from assms have "\<forall>x \<in> set xs. \<exists>k. key x = Inr k" by blast
  from with_keys_total [OF this] obtain ps where
    ps: "with_keys key xs = Inr ps" "map snd ps = xs" "\<forall>p \<in> set ps. key (snd p) = Inr (fst p)"
    by blast
  have snd_in: "snd p \<in> set xs" if "p \<in> set ps" for p
    using that ps(2) by (metis image_eqI set_map)
  have strs: "\<forall>p \<in> set ps. is_str (fst p)"
  proof
    fix p assume p: "p \<in> set ps"
    with assms snd_in obtain s where "key (snd p) = Inr (PStr s)" by blast
    with ps(3) p show "is_str (fst p)" by auto
  qed
  have keys: "\<forall>p \<in> set ps. str_of (fst p) = ?f (snd p)"
    using ps(3) by simp
  have "map snd (sort_key (\<lambda>p. str_of (fst p)) ps) = sort_key ?f (map snd ps)"
    using keys
  proof (induction ps)
    case Nil
    then show ?case by simp
  next
    case (Cons p ps)
    have ins: "map snd (insort_key (\<lambda>p. str_of (fst p)) p qs) = insort_key ?f (snd p) (map snd qs)"
      if "\<forall>q \<in> set qs. str_of (fst q) = ?f (snd q)" for qs
      using that Cons.prems by (induction qs) auto
    have "set (sort_key (\<lambda>p. str_of (fst p)) ps) = set ps"
      by simp
    with Cons show ?case
      by (simp add: ins)
  qed
  with ps py_sort_pairs_strings [OF strs] show ?thesis
    by (simp add: py_sorted_def)
qed


lemma map_of_dict_update:
  "map_of (dict_update k v kvs) = (map_of kvs)(k \<mapsto> v)"
  by (induction kvs) (auto simp: fun_eq_iff)

lemma keys_dict_update:
  "fst ` set (dict_update k v kvs) = insert k (fst ` set kvs)"
  by (induction kvs) force+

lemma py_setitem_dict:
  "py_setitem m key v = Inr m' \<Longrightarrow>
   \<exists>kvs. m = PDict kvs \<and> m' = PDict (dict_update (PStr key) v kvs)"
  by (cases m) auto

lemma collect_skills_returns:
  "collect_skills safe_load files acc = Inr out \<Longrightarrow>
   out = acc @ concat (map (skill_entries safe_load) files)"
proof (induction files arbitrary: acc)
  case Nil
  then show ?case by simp
next
  case (Cons f files)
  obtain rel nd where f: "f = (rel, nd)" by (cases f)
  from Cons.prems f obtain content m where
    nd: "nd = TextFile content" and m: "extract_frontmatter safe_load content = Inr m"
    by (cases nd) (auto split: sum.splits)
  show ?case
  proof (cases "truthy m")
    case True
    with Cons.prems f nd m obtain m' where
      upd: "py_setitem m ''path'' (PStr rel) = Inr m'" and
      rest: "collect_skills safe_load files (acc @ [m']) = Inr out"
      by (auto split: sum.splits)
    from py_setitem_dict [OF upd] obtain kvs where
      "m = PDict kvs" "m' = PDict (dict_update (PStr ''path'') (PStr rel) kvs)"
      by blast
    with True Cons.IH [OF rest] f nd m show ?thesis
      by simp
  next
    case False
    with Cons.prems f nd m have "collect_skills safe_load files acc = Inr out"
      by simp
    from Cons.IH [OF this] False f nd m show ?thesis
      by (cases m) auto
  qed
qed

lemma collect_skills_dicts:
  assumes "collect_skills safe_load files acc = Inr out"
    and "(rel, TextFile content) \<in> set files"
    and "extract_frontmatter safe_load content = Inr m"
    and "truthy m"
  shows "\<exists>kvs. m = PDict kvs"
  using assms
proof (induction files arbitrary: acc)
  case Nil
  then show ?case by simp
next
  case (Cons f files)
  show ?case
  proof (cases "f = (rel, TextFile content)")
    case True
    with Cons.prems show ?thesis
      by (auto split: sum.splits dest: py_setitem_dict)
  next
    case False
    obtain rel' nd' where f: "f = (rel', nd')" by (cases f)
    from Cons.prems(1) f obtain acc' where "collect_skills safe_load files acc' = Inr out"
      by (cases nd') (auto split: sum.splits if_splits)
    moreover from False Cons.prems(2) have "(rel, TextFile content) \<in> set files"
      by simp
    ultimately show ?thesis
      using Cons.IH Cons.prems(3,4) by blast
  qed
qed

lemma collect_skills_total:
  "list_all (well_formed_skill_file safe_load) files \<Longrightarrow>
   collect_skills safe_load files acc = Inr (acc @ concat (map (skill_entries safe_load) files))"
proof (induction files arbitrary: acc)
  case Nil
  then show ?case by simp
next
  case (Cons f files)
  obtain rel nd where f: "f = (rel, nd)" by (cases f)
  from Cons.prems f obtain content m where
    nd: "nd = TextFile content" and m: "extract_frontmatter safe_load content = Inr m" and
    typed: "\<not> truthy m \<or> string_valued ''name'' m"
    by (cases nd) (auto split: sum.splits)
  from Cons have rest: "collect_skills safe_load files acc' =
      Inr (acc' @ concat (map (skill_entries safe_load) files))" for acc'
    by simp
  show ?case
  proof (cases "truthy m")
    case True
    with typed obtain kvs where "m = PDict kvs"
      by (cases m) (auto simp: string_valued_def)
    with True f nd m rest show ?thesis
      by simp
  next
    case False
    with f nd m rest show ?thesis
      by (cases m) auto
  qed
qed

lemma skill_entries_member:
  assumes "e \<in> set (skill_entries safe_load (rel, nd))"
  shows "\<exists>content kvs. nd = TextFile content \<and>
           extract_frontmatter safe_load content = Inr (PDict kvs) \<and> kvs \<noteq> [] \<and>
           e = PDict (dict_update (PStr ''path'') (PStr rel) kvs)"
proof (cases nd)
  case (TextFile content)
  show ?thesis
  proof (cases "extract_frontmatter safe_load content")
    case (Inl err)
    with assms TextFile show ?thesis by simp
  next
    case (Inr m)
    with assms TextFile show ?thesis
      by (cases m) (auto split: if_splits)
  qed
next
  case (Unreadable err)
  with assms show ?thesis by simp
qed

lemma skill_entries_name:
  assumes "well_formed_skill_file safe_load f" and "e \<in> set (skill_entries safe_load f)"
  shows "\<exists>s. py_get e ''name'' (PStr []) = Inr (PStr s)"
proof -
  obtain rel nd where f: "f = (rel, nd)" by (cases f)
  from assms(2) f skill_entries_member [of e safe_load rel nd] obtain content kvs where
    "nd = TextFile content" "extract_frontmatter safe_load content = Inr (PDict kvs)"
    "kvs \<noteq> []" and e: "e = PDict (dict_update (PStr ''path'') (PStr rel) kvs)"
    by blast
  with assms(1) f have "string_valued ''name'' (PDict kvs)"
    by simp
  then show ?thesis
    unfolding e
    by (cases "map_of kvs (PStr ''name'')"; cases "the (map_of kvs (PStr ''name''))")
      (auto simp: string_valued_def map_of_dict_update)
qed

lemma discover_skills_total:
  assumes "list_all (well_formed_skill_file safe_load) files"
  shows "discover_skills safe_load files =
     Inr (sort_key name_of (concat (map (skill_entries safe_load) files)))"
proof -
  have "\<forall>e \<in> set (concat (map (skill_entries safe_load) files)).
          \<exists>s. py_get e ''name'' (PStr []) = Inr (PStr s)"
    using assms by (auto simp: list_all_iff intro: skill_entries_name)
  from py_sorted_strings [OF this] collect_skills_total [OF assms, of "[]"] show ?thesis
    by (simp add: discover_skills_def name_of_def [abs_def])
qed

lemma mset_concat_map_cong:
  assumes "mset xs = mset ys"
  shows "mset (concat (map f xs)) = mset (concat (map f ys))"
proof -
  have "mset (concat (map f zs)) = (\<Sum>z \<in># mset zs. mset (f z))" for zs
    by (induction zs) auto
  with assms show ?thesis by simp
qed

text \<open>
  C7, as the code has it. When every skill file can be read and has metadata that is
  empty or a mapping whose name, if present, is a string, \<^verbatim>\<open>_discover_skills\<close> returns
  the entries of the files with non-empty metadata, sorted stably by name in ascending
  order of code points, an entry without a name counting as the empty string (which is
  below every other string). The names come out in the same order for every order in
  which the files are discovered.
\<close>

theorem discover_skills_sorted:
  assumes "list_all (well_formed_skill_file safe_load) files"
  shows "\<exists>skills. discover_skills safe_load files = Inr skills \<and>
           skills = sort_key name_of (concat (map (skill_entries safe_load) files)) \<and>
           mset skills = mset (concat (map (skill_entries safe_load) files)) \<and>
           sorted (map name_of skills) \<and>
           (\<forall>files'. mset files' = mset files \<longrightarrow>
              (\<exists>skills'. discover_skills safe_load files' = Inr skills' \<and>
                 map name_of skills' = map name_of skills))"
proof -
  let ?entries = "\<lambda>fs. concat (map (skill_entries safe_load) fs)"
  let ?skills = "sort_key name_of (?entries files)"
  have run: "discover_skills safe_load files = Inr ?skills"
    using assms by (rule discover_skills_total)
  have same_entries: "mset ?skills = mset (?entries files)"
    by simp
  have sorted: "sorted (map name_of ?skills)"
    by (rule sorted_sort_key)
  have perm: "\<exists>skills'. discover_skills safe_load files' = Inr skills' \<and>
      map name_of skills' = map name_of ?skills" if same: "mset files' = mset files" for files'
  proof -
    from same have "set files' = set files"
      by (rule mset_eq_setD)
    with assms have "list_all (well_formed_skill_file safe_load) files'"
      by (simp add: list_all_iff)
    then have run': "discover_skills safe_load files' = Inr (sort_key name_of (?entries files'))"
      by (rule discover_skills_total)
    have "mset (?entries files') = mset (?entries files)"
      using same by (rule mset_concat_map_cong)
    then have "mset (map name_of (sort_key name_of (?entries files'))) =
        mset (map name_of ?skills)"
      by simp
    moreover have "sorted (map name_of (sort_key name_of (?entries files')))"
      by (rule sorted_sort_key)
    ultimately have "map name_of (sort_key name_of (?entries files')) = map name_of ?skills"
      using sorted by (metis properties_for_sort)
    with run' show ?thesis by blast
  qed
  from run same_entries sorted perm show ?thesis by blast
qed

text \<open>The three files, and the same files discovered in the opposite order.\<close>

theorem discover_skills_sorted_witness:
  "list_all (well_formed_skill_file sample_safe_load) sample_tree \<and>
   discover_skills sample_safe_load sample_tree =
     Inr [PDict [(PStr ''category'', PStr ''tools''), (PStr ''path'', PStr ''tools/SKILL.md'')],
          PDict [(PStr ''name'', PStr ''a-skill''), (PStr ''path'', PStr ''a/SKILL.md'')],
          PDict [(PStr ''name'', PStr ''b-skill''), (PStr ''path'', PStr ''b/SKILL.md'')]] \<and>
   discover_skills sample_safe_load (rev sample_tree) =
     discover_skills sample_safe_load sample_tree \<and>
   sorted (map name_of
     [PDict [(PStr ''category'', PStr ''tools''), (PStr ''path'', PStr ''tools/SKILL.md'')],
      PDict [(PStr ''name'', PStr ''a-skill''), (PStr ''path'', PStr ''a/SKILL.md'')],
      PDict [(PStr ''name'', PStr ''b-skill''), (PStr ''path'', PStr ''b/SKILL.md'')]])"
proof -
  have wf: "list_all (well_formed_skill_file sample_safe_load) sample_tree"
    by code_simp
  have run: "discover_skills sample_safe_load sample_tree =
     Inr [PDict [(PStr ''category'', PStr ''tools''), (PStr ''path'', PStr ''tools/SKILL.md'')],
          PDict [(PStr ''name'', PStr ''a-skill''), (PStr ''path'', PStr ''a/SKILL.md'')],
          PDict [(PStr ''name'', PStr ''b-skill''), (PStr ''path'', PStr ''b/SKILL.md'')]]"
    by code_simp
  have reversed: "discover_skills sample_safe_load (rev sample_tree) =
     discover_skills sample_safe_load sample_tree"
    by code_simp
  from discover_skills_sorted [OF wf] run wf reversed show ?thesis
    by auto
qed

text \<open>
  C7 as stated fails: names that YAML reads as the integers 10 and 9 are sorted as
  numbers, 9 before 10, while as raw strings \<^verbatim>\<open>10\<close> is below \<^verbatim>\<open>9\<close>.
\<close>

theorem discover_skills_numeric_names_counterexample:
  "discover_skills sample_safe_load
     [(''ten/SKILL.md'', TextFile (text_of_lines [''---'', ''name: 10'', ''---''])),
      (''nine/SKILL.md'', TextFile (text_of_lines [''---'', ''name: 9'', ''---'']))] =
     Inr [PDict [(PStr ''name'', PInt 9), (PStr ''path'', PStr ''nine/SKILL.md'')],
          PDict [(PStr ''name'', PInt 10), (PStr ''path'', PStr ''ten/SKILL.md'')]] \<and>
   (''10'' :: string) < ''9''"
  by code_simp

text \<open>
  C10. Every entry of the catalog is the metadata mapping of one of the files with
  \<open>path\<close> set to that file's relative path: \<open>path\<close> holds the relative path whether or
  not the header declares a path of its own, and every other key is present with its
  value exactly as in the header. Every file with non-empty metadata has its entry.
\<close>

theorem catalog_entry_path:
  assumes "discover_skills safe_load files = Inr skills"
  shows "(\<forall>e \<in> set skills. \<exists>rel content kvs.
            (rel, TextFile content) \<in> set files \<and>
            extract_frontmatter safe_load content = Inr (PDict kvs) \<and>
            e = PDict (dict_update (PStr ''path'') (PStr rel) kvs) \<and>
            py_getitem e ''path'' = Inr (PStr rel) \<and>
            (\<forall>key. key \<noteq> ''path'' \<longrightarrow>
               py_getitem e key = py_getitem (PDict kvs) key \<and>
               py_contains e key = py_contains (PDict kvs) key)) \<and>
         (\<forall>rel content m.
            (rel, TextFile content) \<in> set files \<and>
            extract_frontmatter safe_load content = Inr m \<and> truthy m \<longrightarrow>
            (\<exists>kvs. m = PDict kvs \<and>
               PDict (dict_update (PStr ''path'') (PStr rel) kvs) \<in> set skills))"
proof -
  from assms obtain collected where
    c: "collect_skills safe_load files [] = Inr collected" and
    s: "py_sorted (\<lambda>x. py_get x ''name'' (PStr [])) collected = Inr skills"
    by (auto simp: discover_skills_def split: sum.splits)
  have "set skills = set collected"
    using py_sorted_mset [OF s] by (rule mset_eq_setD)
  with collect_skills_returns [OF c]
  have skills: "set skills = (\<Union>f \<in> set files. set (skill_entries safe_load f))"
    by simp
  have frame: "py_getitem (PDict (dict_update (PStr ''path'') (PStr rel) kvs)) ''path'' = Inr (PStr rel) \<and>
      (\<forall>key. key \<noteq> ''path'' \<longrightarrow>
         py_getitem (PDict (dict_update (PStr ''path'') (PStr rel) kvs)) key = py_getitem (PDict kvs) key \<and>
         py_contains (PDict (dict_update (PStr ''path'') (PStr rel) kvs)) key =
           py_contains (PDict kvs) key)" for rel kvs
    by (auto simp: map_of_dict_update keys_dict_update)
  have entries: "\<exists>rel content kvs.
            (rel, TextFile content) \<in> set files \<and>
            extract_frontmatter safe_load content = Inr (PDict kvs) \<and>
            e = PDict (dict_update (PStr ''path'') (PStr rel) kvs)" if "e \<in> set skills" for e
  proof -
    from that skills obtain f where f: "f \<in> set files" "e \<in> set (skill_entries safe_load f)"
      by blast
    obtain rel nd where fn: "f = (rel, nd)" by (cases f)
    with f skill_entries_member [of e safe_load rel nd] show ?thesis
      by blast
  qed
  have cataloged: "\<exists>kvs. m = PDict kvs \<and>
      PDict (dict_update (PStr ''path'') (PStr rel) kvs) \<in> set skills"
    if "(rel, TextFile content) \<in> set files" "extract_frontmatter safe_load content = Inr m"
      "truthy m" for rel content m
  proof -
    from collect_skills_dicts [OF c that] obtain kvs where m: "m = PDict kvs"
      by blast
    with that have "PDict (dict_update (PStr ''path'') (PStr rel) kvs) \<in>
        set (skill_entries safe_load (rel, TextFile content))"
      by simp
    with that(1) skills m show ?thesis
      by blast
  qed
  show ?thesis
    using entries frame cataloged by (intro conjI ballI allI impI) (metis, blast)
qed

text \<open>A header that declares a path of its own: the relative path replaces it.\<close>

theorem catalog_entry_path_witness:
  "discover_skills sample_safe_load
     [(''a/SKILL.md'',
       TextFile (text_of_lines [''---'', ''name: a-skill'', ''path: elsewhere/SKILL.md'', ''---'']))] =
     Inr [PDict [(PStr ''name'', PStr ''a-skill''), (PStr ''path'', PStr ''a/SKILL.md'')]] \<and>
   extract_frontmatter sample_safe_load
     (text_of_lines [''---'', ''name: a-skill'', ''path: elsewhere/SKILL.md'', ''---'']) =
     Inr (PDict [(PStr ''name'', PStr ''a-skill''), (PStr ''path'', PStr ''elsewhere/SKILL.md'')]) \<and>
   py_getitem (PDict [(PStr ''name'', PStr ''a-skill''), (PStr ''path'', PStr ''a/SKILL.md'')])
     ''path'' = Inr (PStr ''a/SKILL.md'')"
proof -
  have run: "discover_skills sample_safe_load
     [(''a/SKILL.md'',
       TextFile (text_of_lines [''---'', ''name: a-skill'', ''path: elsewhere/SKILL.md'', ''---'']))] =
     Inr [PDict [(PStr ''name'', PStr ''a-skill''), (PStr ''path'', PStr ''a/SKILL.md'')]]"
    by code_simp
  have fm: "extract_frontmatter sample_safe_load
     (text_of_lines [''---'', ''name: a-skill'', ''path: elsewhere/SKILL.md'', ''---'']) =
     Inr (PDict [(PStr ''name'', PStr ''a-skill''), (PStr ''path'', PStr ''elsewhere/SKILL.md'')])"
    by code_simp
  from catalog_entry_path [OF run] run fm show ?thesis
    by simp
qed

section \<open>Properties of the markdown rendering\<close>

lemma py_get_string_valued:
  assumes "string_valued key m"
  shows "\<exists>s. py_get m key (PStr d) = Inr (PStr s)"
proof -
  from assms obtain kvs where m: "m = PDict kvs"
    by (cases m) (auto simp: string_valued_def)
  show ?thesis
  proof (cases "map_of kvs (PStr key)")
    case None
    with m show ?thesis by simp
  next
    case (Some v)
    with assms m obtain s where "v = PStr s"
      by (cases v) (auto simp: string_valued_def)
    with Some m show ?thesis by simp
  qed
qed

lemma py_get_category:
  assumes "string_valued ''category'' skill"
  shows "py_get skill ''category'' (PStr ''uncategorized'') = Inr (PStr (category_of skill))"
  using py_get_string_valued [OF assms, of "''uncategorized''"]
  by (auto simp: category_of_def)

lemma py_eq_str_key:
  "is_str k \<Longrightarrow> py_eq k (PStr c) = (k = PStr c)"
  by (cases k) auto

lemma group_append_keys:
  "str_keyed groups \<Longrightarrow>
   fst ` set (group_append (PStr c) s groups) = insert (PStr c) (fst ` set groups)"
  by (induction groups) (force simp: str_keyed_def py_eq_str_key)+

lemma group_append_distinct:
  "str_keyed groups \<Longrightarrow> distinct (map fst groups) \<Longrightarrow>
   distinct (map fst (group_append (PStr c) s groups))"
proof (induction groups)
  case Nil
  then show ?case by simp
next
  case (Cons g groups)
  obtain k ms where g: "g = (k, ms)" by (cases g)
  from Cons.prems have sk: "str_keyed groups" "is_str k"
    by (auto simp: str_keyed_def g)
  with Cons g group_append_keys [OF sk(1), of c s] show ?case
    by (auto simp: py_eq_str_key)
qed

lemma group_append_members:
  "str_keyed groups \<Longrightarrow>
   members_of (group_append (PStr c) s groups) k =
     (if k = PStr c then members_of groups k @ [s] else members_of groups k)"
  by (induction groups) (auto simp: str_keyed_def members_of_def py_eq_str_key)

lemma group_by_category_strings:
  assumes "list_all (string_valued ''category'') skills"
    and "str_keyed groups" and "distinct (map fst groups)"
  shows "\<exists>groups'. group_by_category skills groups = Inr groups' \<and>
           str_keyed groups' \<and> distinct (map fst groups') \<and>
           fst ` set groups' = fst ` set groups \<union> (\<lambda>s. PStr (category_of s)) ` set skills \<and>
           (\<forall>c. members_of groups' (PStr c) =
                  members_of groups (PStr c) @ filter (\<lambda>s. category_of s = c) skills)"
  using assms
proof (induction skills arbitrary: groups)
  case Nil
  then show ?case by simp
next
  case (Cons s skills)
  let ?g = "group_append (PStr (category_of s)) s groups"
  from Cons.prems(1) have cat: "py_get s ''category'' (PStr ''uncategorized'') =
      Inr (PStr (category_of s))"
    by (simp add: py_get_category)
  have sk: "str_keyed ?g"
    using Cons.prems(2) group_append_keys [OF Cons.prems(2), of "category_of s" s]
    by (simp add: str_keyed_def)
  have di: "distinct (map fst ?g)"
    using Cons.prems(2,3) by (rule group_append_distinct)
  from Cons.prems(1) have "list_all (string_valued ''category'') skills"
    by simp
  from Cons.IH [OF this sk di] obtain groups' where
    g': "group_by_category skills ?g = Inr groups'" "str_keyed groups'"
      "distinct (map fst groups')"
      "fst ` set groups' = fst ` set ?g \<union> (\<lambda>s. PStr (category_of s)) ` set skills"
      "\<forall>c. members_of groups' (PStr c) =
            members_of ?g (PStr c) @ filter (\<lambda>s. category_of s = c) skills"
    by blast
  have "group_by_category (s # skills) groups = Inr groups'"
    using cat g'(1) by simp
  moreover have "fst ` set groups' =
      fst ` set groups \<union> (\<lambda>s. PStr (category_of s)) ` set (s # skills)"
    using g'(4) group_append_keys [OF Cons.prems(2), of "category_of s" s] by auto
  moreover have "\<forall>c. members_of groups' (PStr c) =
      members_of groups (PStr c) @ filter (\<lambda>s. category_of s = c) (s # skills)"
    using g'(5) by (auto simp: group_append_members [OF Cons.prems(2)])
  ultimately show ?case
    using g'(2,3) by blast
qed

lemma group_lookup_str_keyed:
  "str_keyed groups \<Longrightarrow>
   group_lookup groups (PStr c) =
     (case map_of groups (PStr c) of None \<Rightarrow> Inl KeyError | Some ms \<Rightarrow> Inr ms)"
  by (induction groups) (auto simp: str_keyed_def py_eq_str_key)

lemma render_skills_blocks:
  "list_all (renders py_str) ms \<Longrightarrow>
   render_skills py_str ms lines = Inr (lines @ concat (map (block_of py_str) ms))"
  by (induction ms arbitrary: lines)
    (auto simp: renders_def block_of_def split: sum.splits)

lemma render_categories_sections:
  assumes "str_keyed groups" and "\<forall>c \<in> set cs. PStr c \<in> fst ` set groups"
    and "\<forall>c \<in> set cs. list_all (renders py_str) (members_of groups (PStr c))"
  shows "render_categories title py_str groups (map PStr cs) lines =
     Inr (lines @ concat (map (\<lambda>c. ([NL] @ ''## '' @ title c @ [NL]) #
                                   concat (map (block_of py_str) (members_of groups (PStr c)))) cs))"
  using assms(2,3)
proof (induction cs arbitrary: lines)
  case Nil
  then show ?case by simp
next
  case (Cons c cs)
  from Cons.prems(1) obtain ms where ms: "map_of groups (PStr c) = Some ms"
    by (auto simp: image_iff) (metis weak_map_of_SomeI map_of_eq_None_iff not_Some_eq prod.collapse)
  then have look: "group_lookup groups (PStr c) = Inr ms" and mem: "members_of groups (PStr c) = ms"
    using assms(1) by (simp_all add: group_lookup_str_keyed members_of_def)
  from Cons.prems(2) mem have "list_all (renders py_str) ms"
    by simp
  from render_skills_blocks [OF this] look mem Cons.IH Cons.prems show ?case
    by simp
qed

lemma sort_str_keys:
  assumes "\<forall>k \<in> set ks. is_str k" and "distinct ks" and "set ks = PStr ` cats"
  shows "sort_key str_of ks = map PStr (sorted_list_of_set cats)"
proof -
  have inj: "inj_on str_of (set ks)"
    using assms(1) by (intro inj_onI) (metis is_str.elims(2) str_of.simps(1))
  have "sorted (map str_of (sort_key str_of ks))"
    by (rule sorted_sort_key)
  moreover have "distinct (map str_of (sort_key str_of ks))"
    using assms(2) inj by (simp add: distinct_map)
  moreover have "set (map str_of (sort_key str_of ks)) = cats"
    using assms(3) by (simp add: image_image)
  ultimately have "sorted_list_of_set cats = map str_of (sort_key str_of ks)"
    using sorted_list_of_set.idem_if_sorted_distinct by blast
  moreover have "PStr (str_of k) = k" if "k \<in> set ks" for k
    using assms(1) that by (cases k) auto
  then have "map (\<lambda>k. PStr (str_of k)) (sort_key str_of ks) = sort_key str_of ks"
    by (intro map_idI) simp
  then have "map PStr (map str_of (sort_key str_of ks)) = sort_key str_of ks"
    by (simp add: comp_def)
  ultimately show ?thesis by simp
qed

text \<open>
  C8, as the code has it. For entries that are mappings whose category, if present, is a
  string, and whose four lines can be produced, the rendering is the three header lines
  followed by one section per distinct category (\<^verbatim>\<open>uncategorized\<close> for an entry without
  one), the sections in ascending order of the categories as raw strings, compared by
  code points. Each section is the heading with the category in title case followed by
  the lines of its entries in their order in the list.
\<close>

theorem markdown_sections:
  assumes "list_all (string_valued ''category'') skills"
    and "list_all (renders py_str) skills"
  shows "markdown_lines title py_str now skills =
     Inr ([''# Skills Catalog'' @ [NL],
           ''Generated: '' @ now @ [NL],
           ''Total Skills: '' @ py_str (PInt (int (length skills))) @ [NL]]
          @ concat (map (\<lambda>c. ([NL] @ ''## '' @ title c @ [NL]) #
                               concat (map (block_of py_str)
                                         (filter (\<lambda>s. category_of s = c) skills)))
                        (sorted_list_of_set (category_of ` set skills))))"
proof -
  from group_by_category_strings [OF assms(1), of "[]"] obtain groups where
    g: "group_by_category skills [] = Inr groups" "str_keyed groups" "distinct (map fst groups)"
      "fst ` set groups = (\<lambda>s. PStr (category_of s)) ` set skills"
      "\<forall>c. members_of groups (PStr c) = filter (\<lambda>s. category_of s = c) skills"
    by (auto simp: str_keyed_def members_of_def)
  let ?cats = "sorted_list_of_set (category_of ` set skills)"
  have "\<forall>k \<in> set (map fst groups). \<exists>s. Inr k = (Inr (PStr s) :: py_error + pyval)"
    using g(2) by (auto simp: str_keyed_def) (metis is_str.elims(2) fst_conv)
  from py_sorted_strings [OF this]
  have "py_sorted Inr (map fst groups) = Inr (sort_key str_of (map fst groups))"
    by simp
  moreover have "sort_key str_of (map fst groups) = map PStr ?cats"
    using g(2,3,4) by (intro sort_str_keys) (auto simp: str_keyed_def image_image)
  ultimately have sorted: "py_sorted Inr (map fst groups) = Inr (map PStr ?cats)"
    by simp
  have "\<forall>c \<in> set ?cats. PStr c \<in> fst ` set groups"
    using g(4) by auto
  moreover have "\<forall>c \<in> set ?cats. list_all (renders py_str) (members_of groups (PStr c))"
    using g(5) assms(2) by (simp add: list_all_iff)
  ultimately show ?thesis
    using g(1,5) sorted render_categories_sections [OF g(2), of ?cats py_str title]
    by (simp add: markdown_lines_def)
qed

text \<open>The three entries with ASCII title case and a clock reading.\<close>

theorem markdown_sections_witness:
  "list_all (string_valued ''category'') sample_skills \<and>
   list_all (renders scalar_str) sample_skills \<and>
   markdown_lines ascii_title scalar_str ''2024-01-01T00:00:00'' sample_skills =
     Inr ([''# Skills Catalog'' @ [NL],
           ''Generated: '' @ ''2024-01-01T00:00:00'' @ [NL],
           ''Total Skills: '' @ scalar_str (PInt (int (length sample_skills))) @ [NL]]
          @ concat (map (\<lambda>c. ([NL] @ ''## '' @ ascii_title c @ [NL]) #
                               concat (map (block_of scalar_str)
                                         (filter (\<lambda>s. category_of s = c) sample_skills)))
                        (sorted_list_of_set (category_of ` set sample_skills))))"
proof -
  have h1: "list_all (string_valued ''category'') sample_skills"
    by code_simp
  have h2: "list_all (renders scalar_str) sample_skills"
    by code_simp
  from markdown_sections [OF h1 h2] h1 h2 show ?thesis
    by blast
qed

text \<open>
  C8 as stated fails: the sections are sorted with upper case before lower case. The
  category \<^verbatim>\<open>Beta\<close> comes before \<^verbatim>\<open>alpha\<close>, though \<^verbatim>\<open>alpha\<close> is first when case is
  ignored.
\<close>

theorem markdown_sections_counterexample:
  "(case markdown_lines ascii_title scalar_str ''2024-01-01T00:00:00'' sample_skills of
      Inr lines \<Rightarrow> filter (prefix (NL # ''## '')) lines
    | Inl e \<Rightarrow> []) =
     [NL # ''## Beta'' @ [NL], NL # ''## Alpha'' @ [NL], NL # ''## Uncategorized'' @ [NL]] \<and>
   map to_lower ''alpha'' < map to_lower ''Beta''"
  by code_simp

end
